theory Spec2Isabelle
  imports Main "HOL-Library.Sublist" "HOL-Library.AList"
begin

section \<open>Plugin lifecycle of the modular bot (core/plugin.py)\<close>

text \<open>
  The development embeds the class \<^verbatim>\<open>Plugin\<close> of \<^verbatim>\<open>core/plugin.py\<close>. A Python
  \<^verbatim>\<open>str\<close> is a \<^typ>\<open>string\<close> with one \<^typ>\<open>char\<close> per code point below U+0100, a
  Python \<^verbatim>\<open>int\<close> is an \<^typ>\<open>int\<close>, a \<^verbatim>\<open>dict\<close> is an association list in insertion
  order with distinct keys. Everything outside the class (the discord.py extension
  registry, the file system, the HTTP client) is a parameter: a record of operations over
  an arbitrary world type. Exceptions are values; a method returns \<open>Inl e\<close> when the
  exception \<open>e\<close> leaves it. Calls of the logger write to no state modelled here and are
  left out.
\<close>

subsection \<open>Exceptions\<close>

text \<open>
  The exception classes that the module names or that its collaborators raise.
  \<open>ConnectionError\<close> is the built-in class (the module imports no other class of that
  name); \<open>RequestsConnectionError\<close> is \<^verbatim>\<open>requests.exceptions.ConnectionError\<close>, which
  derives from \<^verbatim>\<open>RequestException\<close> and \<^verbatim>\<open>IOError\<close> and not from the built-in
  \<^verbatim>\<open>ConnectionError\<close>; \<open>OSError\<close> stands for the remaining operating-system errors.
\<close>

datatype exn =
    ExtensionFailed
  | ExtensionNotFound
  | ExtensionNotLoaded
  | ExtensionAlreadyLoaded
  | NoEntryPointError
  | ConnectionError
  | RequestsConnectionError
  | OSError

subsection \<open>Strings\<close>

text \<open>
  \<^verbatim>\<open>str.replace(old, new)\<close>: every non-overlapping occurrence of \<open>old\<close>, found from
  the left, becomes \<open>new\<close>; an empty \<open>old\<close> matches before every character and at the
  end.
\<close>

fun replace :: "string \<Rightarrow> string \<Rightarrow> string \<Rightarrow> string" where
  "replace old new [] = (if old = [] then new else [])"
| "replace old new (c # cs) =
     (if old = [] then new @ c # replace old new cs
      else if prefix old (c # cs) then new @ replace old new (drop (length old) (c # cs))
      else c # replace old new cs)"

text \<open>
  \<^verbatim>\<open>str.splitlines()\<close>: the text is cut at \<^verbatim>\<open>\n\<close>, \<^verbatim>\<open>\r\<close>, \<^verbatim>\<open>\r\n\<close>, \<^verbatim>\<open>\v\<close>, \<^verbatim>\<open>\f\<close>,
  \<^verbatim>\<open>\x1c\<close>, \<^verbatim>\<open>\x1d\<close>, \<^verbatim>\<open>\x1e\<close> and \<^verbatim>\<open>\x85\<close>; the boundaries are dropped and a final
  boundary opens no further line. (The boundaries U+2028 and U+2029 lie outside
  \<^typ>\<open>char\<close>.)
\<close>

definition is_linebreak :: "char \<Rightarrow> bool" where
  "is_linebreak c \<longleftrightarrow>
     c \<in> {CHR 0x0A, CHR 0x0D, CHR 0x0B, CHR 0x0C, CHR 0x1C, CHR 0x1D, CHR 0x1E, CHR 0x85}"

fun splitlines_from :: "string \<Rightarrow> string \<Rightarrow> string list" where
  "splitlines_from cur [] = (if cur = [] then [] else [cur])"
| "splitlines_from cur [c] =
     (if is_linebreak c then [cur] else splitlines_from (cur @ [c]) [])"
| "splitlines_from cur (c # d # cs) =
     (if c = CHR 0x0D \<and> d = CHR 0x0A then cur # splitlines_from [] cs
      else if is_linebreak c then cur # splitlines_from [] (d # cs)
      else splitlines_from (cur @ [c]) (d # cs))"

definition splitlines :: "string \<Rightarrow> string list" where
  "splitlines s = splitlines_from [] s"

text \<open>
  \<^verbatim>\<open>os.path.dirname\<close> (POSIX): everything up to the last slash, with trailing slashes
  stripped unless the head consists of slashes only.
\<close>

definition dirname :: "string \<Rightarrow> string" where
  "dirname p =
     (let head = rev (dropWhile (\<lambda>c. c \<noteq> CHR ''/'') (rev p))
      in if head \<noteq> [] \<and> head \<noteq> replicate (length head) (CHR ''/'')
         then rev (dropWhile (\<lambda>c. c = CHR ''/'') (rev head))
         else head)"

subsection \<open>Persisted records\<close>

text \<open>
  \<^verbatim>\<open>PluginData\<close> and \<^verbatim>\<open>PluginFiles\<close> (models/plugins.py) with the columns that the
  class reads. The storage session holds both tables; a query returns the rows in table
  order.
\<close>

record plugin_data =
  version :: string
  name :: string
  description :: string
  author :: string
  folder_name :: string
  enabled :: bool
  id_field :: int

record plugin_files =
  plugin_id :: int
  file_field :: string
  file_url :: string

record db =
  plugin_data_table :: "plugin_data list"
  plugin_files_table :: "plugin_files list"

definition update_enabled :: "int \<Rightarrow> bool \<Rightarrow> db \<Rightarrow> db" where
  "update_enabled i v d =
     d\<lparr>plugin_data_table :=
         map (\<lambda>r. if id_field r = i then r\<lparr>enabled := v\<rparr> else r) (plugin_data_table d)\<rparr>"

subsection \<open>The collaborators\<close>

text \<open>
  The host's three extension operations, the file system and the HTTP client, over a
  world \<open>'w\<close>. An operation returns the exception it raises, if any, and the world it
  leaves. \<open>read_file\<close> is \<^verbatim>\<open>open(path, "r").read()\<close>, \<open>write_file\<close> is
  \<^verbatim>\<open>open(path, "wb").write(content)\<close>, \<open>makedirs\<close> is called with
  \<^verbatim>\<open>exist_ok=True\<close>, and \<open>requests_get\<close> yields the body of the response.
\<close>

record 'w sys =
  load_extension :: "string \<Rightarrow> 'w \<Rightarrow> exn option \<times> 'w"
  unload_extension :: "string \<Rightarrow> 'w \<Rightarrow> exn option \<times> 'w"
  reload_extension :: "string \<Rightarrow> 'w \<Rightarrow> exn option \<times> 'w"
  path_exists :: "string \<Rightarrow> 'w \<Rightarrow> bool"
  mkdir :: "string \<Rightarrow> 'w \<Rightarrow> exn option \<times> 'w"
  makedirs :: "string \<Rightarrow> 'w \<Rightarrow> exn option \<times> 'w"
  requests_get :: "string \<Rightarrow> 'w \<Rightarrow> (exn + string) \<times> 'w"
  write_file :: "string \<Rightarrow> string \<Rightarrow> 'w \<Rightarrow> exn option \<times> 'w"
  read_file :: "string \<Rightarrow> 'w \<Rightarrow> exn + string"

datatype host_op = Load | Unload | Reload

text \<open>
  The bot as the plugin sees it: the storage session, the world, and a history of the
  calls made to the host, kept to count them.
\<close>

record 'w bot =
  database :: db
  world :: 'w
  host_calls :: "(host_op \<times> string) list"

fun host_fun :: "'w sys \<Rightarrow> host_op \<Rightarrow> string \<Rightarrow> 'w \<Rightarrow> exn option \<times> 'w" where
  "host_fun sys Load = load_extension sys"
| "host_fun sys Unload = unload_extension sys"
| "host_fun sys Reload = reload_extension sys"

definition call_host :: "'w sys \<Rightarrow> host_op \<Rightarrow> string \<Rightarrow> 'w bot \<Rightarrow> exn option \<times> 'w bot" where
  "call_host sys op m bt =
     (case host_fun sys op m (world bt) of
        (r, w') \<Rightarrow> (r, bt\<lparr>world := w', host_calls := host_calls bt @ [(op, m)]\<rparr>))"

subsection \<open>The plugin\<close>

record plugin = plugin_data +
  files :: "(string \<times> string) list"
  empty :: bool
  local :: bool
  non_local_files :: "(string \<times> string) list"
  local_files :: "string list"

text \<open>\<^verbatim>\<open>generate_safe_path\<close>: five replacements in a row under a fixed prefix.\<close>

definition generate_safe_path :: "'a plugin_data_scheme \<Rightarrow> string \<Rightarrow> string" where
  "generate_safe_path self path =
     ''plugins.'' @ folder_name self @ ''.'' @
     replace ''/'' ''.'' (replace ''.'' ''_'' (replace ''-'' ''_''
       (replace '' '' ''_'' (replace ''.py'' '''' path))))"

text \<open>
  \<^verbatim>\<open>_get_files\<close>: the dict comprehension over the rows of this plugin; a path met
  again keeps its place and takes the later URL.
\<close>

definition get_files :: "'a plugin_data_scheme \<Rightarrow> db \<Rightarrow> (string \<times> string) list" where
  "get_files self d =
     foldl (\<lambda>acc r. AList.update (file_field r) (file_url r) acc) []
       (filter (\<lambda>r. plugin_id r = id_field self) (plugin_files_table d))"

text \<open>
  \<^verbatim>\<open>_exists_localy\<close> reads \<^verbatim>\<open>self.folder_name\<close> and \<^verbatim>\<open>self.files\<close>, given here as
  arguments because the constructor calls it before the plugin is complete.
\<close>

fun exists_localy_loop ::
  "'w sys \<Rightarrow> string \<Rightarrow> 'w \<Rightarrow> (string \<times> string) list \<Rightarrow>
   bool \<times> (string \<times> string) list \<times> string list \<Rightarrow> bool \<times> (string \<times> string) list \<times> string list" where
  "exists_localy_loop sys folder w [] acc = acc"
| "exists_localy_loop sys folder w ((f, link) # rest) (loc, nlf, lf) =
     (if \<not> path_exists sys (''plugins/'' @ folder @ ''/'' @ f) w
      then exists_localy_loop sys folder w rest (False, nlf @ [(f, link)], lf)
      else exists_localy_loop sys folder w rest (loc, nlf, lf @ [f]))"

definition exists_localy ::
  "'w sys \<Rightarrow> string \<Rightarrow> (string \<times> string) list \<Rightarrow> 'w \<Rightarrow> bool \<times> (string \<times> string) list \<times> string list" where
  "exists_localy sys folder fs w = exists_localy_loop sys folder w fs (True, [], [])"

text \<open>
  \<^verbatim>\<open>_download\<close>: the loop stops at the first exception; the handler around the loop
  takes a built-in \<open>ConnectionError\<close> and nothing else.
\<close>

fun download_loop ::
  "'w sys \<Rightarrow> (string \<times> string) list \<Rightarrow> plugin \<times> 'w bot \<Rightarrow> exn option \<times> plugin \<times> 'w bot" where
  "download_loop sys [] (self, bt) = (None, self, bt)"
| "download_loop sys ((f, link) # rest) (self, bt) =
     (case requests_get sys link (world bt) of
        (Inl e, w1) \<Rightarrow> (Some e, self, bt\<lparr>world := w1\<rparr>)
      | (Inr content, w1) \<Rightarrow>
          (case makedirs sys (dirname (''plugins/'' @ folder_name self @ ''/'' @ f)) w1 of
             (Some e, w2) \<Rightarrow> (Some e, self, bt\<lparr>world := w2\<rparr>)
           | (None, w2) \<Rightarrow>
               (case write_file sys (''plugins/'' @ folder_name self @ ''/'' @ f) content w2 of
                  (Some e, w3) \<Rightarrow> (Some e, self, bt\<lparr>world := w3\<rparr>)
                | (None, w3) \<Rightarrow>
                    download_loop sys rest
                      (self\<lparr>local_files := local_files self @ [f]\<rparr>, bt\<lparr>world := w3\<rparr>))))"

definition download :: "'w sys \<Rightarrow> plugin \<times> 'w bot \<Rightarrow> exn option \<times> plugin \<times> 'w bot" where
  "download sys sb =
     (case download_loop sys (non_local_files (fst sb)) sb of
        (Some e, self', bt') \<Rightarrow>
          if e = ConnectionError then (None, self', bt') else (Some e, self', bt')
      | (None, self', bt') \<Rightarrow> (None, self', bt'))"

text \<open>
  \<^verbatim>\<open>__init__\<close>. An exception of \<^verbatim>\<open>os.mkdir\<close> or one that leaves \<^verbatim>\<open>_download\<close>
  leaves the constructor, and no plugin results.
\<close>

definition init :: "'w sys \<Rightarrow> plugin_data \<Rightarrow> 'w bot \<Rightarrow> (exn + plugin) \<times> 'w bot" where
  "init sys pd bt =
     (case (if \<not> path_exists sys (''plugins/'' @ folder_name pd) (world bt)
            then mkdir sys (''plugins/'' @ folder_name pd) (world bt)
            else (None, world bt)) of
        (Some e, w1) \<Rightarrow> (Inl e, bt\<lparr>world := w1\<rparr>)
      | (None, w1) \<Rightarrow>
          (let bot1 = bt\<lparr>world := w1\<rparr>;
               fs = get_files pd (database bot1);
               emp = (length fs = 0);
               (loc, nlf, lf) = exists_localy sys (folder_name pd) fs w1;
               self = \<lparr>version = version pd, name = name pd, description = description pd,
                       author = author pd, folder_name = folder_name pd,
                       enabled = (if emp then False else enabled pd), id_field = id_field pd,
                       files = fs, empty = emp, local = loc, non_local_files = nlf,
                       local_files = lf\<rparr>
           in if \<not> local self \<and> \<not> empty self \<and> \<not> enabled self
              then (case download sys (self, bot1) of
                      (Some e, self', bt') \<Rightarrow> (Inl e, bt')
                    | (None, self', bt') \<Rightarrow> (Inr self', bt'))
              else (Inr self, bot1)))"

text \<open>
  \<^verbatim>\<open>load\<close>: the handler sits inside the loop and takes \<^verbatim>\<open>ExtensionFailed\<close>,
  \<^verbatim>\<open>ExtensionNotFound\<close>, \<^verbatim>\<open>ExtensionNotLoaded\<close> and \<^verbatim>\<open>NoEntryPointError\<close>.
\<close>

fun load_loop :: "'w sys \<Rightarrow> string list \<Rightarrow> plugin \<times> 'w bot \<Rightarrow> (exn + bool) \<times> plugin \<times> 'w bot" where
  "load_loop sys [] (self, bt) = (Inr True, self, bt)"
| "load_loop sys (pythonpath # rest) (self, bt) =
     (case call_host sys Load pythonpath bt of
        (None, bt') \<Rightarrow> load_loop sys rest (self, bt')
      | (Some e, bt') \<Rightarrow>
          if e \<in> {ExtensionFailed, ExtensionNotFound, ExtensionNotLoaded, NoEntryPointError}
          then (Inr False, self\<lparr>enabled := False\<rparr>, bt')
          else (Inl e, self, bt'))"

definition load :: "'w sys \<Rightarrow> plugin \<times> 'w bot \<Rightarrow> (exn + bool) \<times> plugin \<times> 'w bot" where
  "load sys sb =
     (if enabled (fst sb)
      then load_loop sys (map (generate_safe_path (fst sb)) (local_files (fst sb))) sb
      else (Inr False, sb))"

text \<open>
  \<^verbatim>\<open>unload\<close> and \<^verbatim>\<open>reload\<close>: one handler around the whole loop; \<^verbatim>\<open>unload\<close> takes
  \<^verbatim>\<open>ExtensionNotFound\<close> and \<^verbatim>\<open>ExtensionNotLoaded\<close>, \<^verbatim>\<open>reload\<close> the same four classes
  as \<^verbatim>\<open>load\<close>.
\<close>

fun host_loop :: "'w sys \<Rightarrow> host_op \<Rightarrow> string list \<Rightarrow> 'w bot \<Rightarrow> exn option \<times> 'w bot" where
  "host_loop sys op [] bt = (None, bt)"
| "host_loop sys op (pythonpath # rest) bt =
     (case call_host sys op pythonpath bt of
        (None, bt') \<Rightarrow> host_loop sys op rest bt'
      | (Some e, bt') \<Rightarrow> (Some e, bt'))"

definition unload :: "'w sys \<Rightarrow> plugin \<times> 'w bot \<Rightarrow> (exn + bool) \<times> plugin \<times> 'w bot" where
  "unload sys sb =
     (case host_loop sys Unload (map (generate_safe_path (fst sb)) (local_files (fst sb))) (snd sb) of
        (None, bt') \<Rightarrow> (Inr True, fst sb, bt')
      | (Some e, bt') \<Rightarrow>
          if e \<in> {ExtensionNotFound, ExtensionNotLoaded}
          then (Inr False, (fst sb)\<lparr>enabled := False\<rparr>, bt')
          else (Inl e, fst sb, bt'))"

definition reload :: "'w sys \<Rightarrow> plugin \<times> 'w bot \<Rightarrow> (exn + bool) \<times> plugin \<times> 'w bot" where
  "reload sys sb =
     (case host_loop sys Reload (map (generate_safe_path (fst sb)) (local_files (fst sb))) (snd sb) of
        (None, bt') \<Rightarrow> (Inr True, fst sb, bt')
      | (Some e, bt') \<Rightarrow>
          if e \<in> {ExtensionFailed, ExtensionNotFound, ExtensionNotLoaded, NoEntryPointError}
          then (Inr False, (fst sb)\<lparr>enabled := False\<rparr>, bt')
          else (Inl e, fst sb, bt'))"

text \<open>\<^verbatim>\<open>enable\<close> and \<^verbatim>\<open>disable\<close>: the flag, then the stored record.\<close>

definition enable :: "plugin \<times> 'w bot \<Rightarrow> plugin \<times> 'w bot" where
  "enable sb =
     ((fst sb)\<lparr>enabled := True\<rparr>,
      (snd sb)\<lparr>database := update_enabled (id_field (fst sb)) True (database (snd sb))\<rparr>)"

definition disable :: "plugin \<times> 'w bot \<Rightarrow> plugin \<times> 'w bot" where
  "disable sb =
     ((fst sb)\<lparr>enabled := False\<rparr>,
      (snd sb)\<lparr>database := update_enabled (id_field (fst sb)) False (database (snd sb))\<rparr>)"

text \<open>\<^verbatim>\<open>get_requirements\<close>: the lines of the requirements file, read at every call.\<close>

definition get_requirements :: "'w sys \<Rightarrow> 'a plugin_data_scheme \<Rightarrow> 'w \<Rightarrow> exn + string list" where
  "get_requirements sys self w =
     (if path_exists sys (''plugins/'' @ folder_name self @ ''/requirements.txt'') w
      then (case read_file sys (''plugins/'' @ folder_name self @ ''/requirements.txt'') w of
              Inl e \<Rightarrow> Inl e
            | Inr text \<Rightarrow> Inr (splitlines text))
      else Inr [])"

subsection \<open>Vocabulary of the statements\<close>

text \<open>
  A run of host calls on a list of module identifiers, started in world \<open>w\<close>:
  \<open>host_ok\<close> says that every call of the run succeeds, \<open>host_after\<close> is the world that
  the run leaves.
\<close>

primrec host_ok :: "(string \<Rightarrow> 'w \<Rightarrow> exn option \<times> 'w) \<Rightarrow> string list \<Rightarrow> 'w \<Rightarrow> bool" where
  "host_ok f [] w = True"
| "host_ok f (m # ms) w = (fst (f m w) = None \<and> host_ok f ms (snd (f m w)))"

primrec host_after :: "(string \<Rightarrow> 'w \<Rightarrow> exn option \<times> 'w) \<Rightarrow> string list \<Rightarrow> 'w \<Rightarrow> 'w" where
  "host_after f [] w = w"
| "host_after f (m # ms) w = host_after f ms (snd (f m w))"

text \<open>
  The operations that a plugin exposes to the application, and a sequence of them applied
  to one plugin. A caller that meets an exception keeps the plugin, so the state left by
  each operation is passed on whatever the operation returned.
\<close>

datatype operation = OpEnable | OpDisable | OpLoad | OpUnload | OpReload

fun apply_op :: "'w sys \<Rightarrow> operation \<Rightarrow> plugin \<times> 'w bot \<Rightarrow> plugin \<times> 'w bot" where
  "apply_op sys OpEnable sb = enable sb"
| "apply_op sys OpDisable sb = disable sb"
| "apply_op sys OpLoad sb = snd (load sys sb)"
| "apply_op sys OpUnload sb = snd (unload sys sb)"
| "apply_op sys OpReload sb = snd (reload sys sb)"

definition run :: "'w sys \<Rightarrow> operation list \<Rightarrow> plugin \<times> 'w bot \<Rightarrow> plugin \<times> 'w bot" where
  "run sys ops sb = fold (apply_op sys) ops sb"

text \<open>
  The character that the four single-character replacements of \<^verbatim>\<open>generate_safe_path\<close>
  leave in place of a character: space, hyphen and dot become an underscore, then the
  slash becomes a dot.
\<close>

definition safe_char :: "char \<Rightarrow> char" where
  "safe_char c =
     (if c = CHR '' '' \<or> c = CHR ''-'' \<or> c = CHR ''.'' then CHR ''_''
      else if c = CHR ''/'' then CHR ''.'' else c)"

text \<open>
  The translation in the words of the specification, to compare with the code: the
  \<^verbatim>\<open>.py\<close> suffix is stripped, the separators are normalised, the prefix is added.
\<close>

definition spec_module_identifier :: "string \<Rightarrow> string \<Rightarrow> string" where
  "spec_module_identifier folder path =
     ''plugins.'' @ folder @ ''.'' @
     map safe_char (if suffix ''.py'' path then take (length path - 3) path else path)"

text \<open>
  The download of one missing file, as one pass of the loop of \<^verbatim>\<open>_download\<close> performs it
  before the path is appended: the GET, the directories, the write. \<open>downloaded\<close> counts
  the files at the head of a batch whose download succeeds, each in the world that the
  one before has left. \<open>ensured_world\<close> is the world once the constructor has made sure
  of the plugin folder.
\<close>

fun fetch_file :: "'w sys \<Rightarrow> string \<Rightarrow> string \<times> string \<Rightarrow> 'w \<Rightarrow> exn option \<times> 'w" where
  "fetch_file sys folder (f, link) w =
     (case requests_get sys link w of
        (Inl e, w1) \<Rightarrow> (Some e, w1)
      | (Inr content, w1) \<Rightarrow>
          (case makedirs sys (dirname (''plugins/'' @ folder @ ''/'' @ f)) w1 of
             (Some e, w2) \<Rightarrow> (Some e, w2)
           | (None, w2) \<Rightarrow> write_file sys (''plugins/'' @ folder @ ''/'' @ f) content w2))"

fun downloaded :: "'w sys \<Rightarrow> string \<Rightarrow> (string \<times> string) list \<Rightarrow> 'w \<Rightarrow> nat" where
  "downloaded sys folder [] w = 0"
| "downloaded sys folder (p # rest) w =
     (case fetch_file sys folder p w of
        (None, w') \<Rightarrow> Suc (downloaded sys folder rest w')
      | (Some e, w') \<Rightarrow> 0)"

definition ensured_world :: "'w sys \<Rightarrow> string \<Rightarrow> 'w \<Rightarrow> 'w" where
  "ensured_world sys folder w =
     (if \<not> path_exists sys (''plugins/'' @ folder) w
      then snd (mkdir sys (''plugins/'' @ folder) w) else w)"

text \<open>
  The lines of a text, said without \<open>splitlines\<close>: the text is a sequence of segments,
  each a line followed by its boundary. A boundary is \<^verbatim>\<open>\r\n\<close> or one boundary character;
  a line holds no boundary character; only the last segment may lack its boundary, and
  then its line is not empty; a boundary \<^verbatim>\<open>\r\<close> is not followed by \<^verbatim>\<open>\n\<close>, which would
  belong to it.
\<close>

fun is_boundary :: "string \<Rightarrow> bool" where
  "is_boundary [c] = is_linebreak c"
| "is_boundary [c, d] = (c = CHR 0x0D \<and> d = CHR 0x0A)"
| "is_boundary b = False"

definition join_lines :: "(string \<times> string) list \<Rightarrow> string" where
  "join_lines segs = concat (map (\<lambda>(l, b). l @ b) segs)"

fun well_split :: "(string \<times> string) list \<Rightarrow> bool" where
  "well_split [] = True"
| "well_split ((l, b) # segs) =
     (list_all (\<lambda>c. \<not> is_linebreak c) l \<and>
      (if segs = [] then is_boundary b \<or> (b = [] \<and> l \<noteq> [])
       else is_boundary b \<and> \<not> (b = [CHR 0x0D] \<and> take 1 (join_lines segs) = [CHR 0x0A])) \<and>
      well_split segs)"

subsection \<open>A concrete world for the examples\<close>

text \<open>
  A small world to run the methods in: the modules that can be imported, the extensions
  loaded in the bot, the files and directories on disk, and the bodies served at each URL.
  A URL that serves nothing makes \<^verbatim>\<open>requests.get\<close> raise its own \<^verbatim>\<open>ConnectionError\<close>.
  The host checks for a loaded extension before it looks the module up, as discord.py
  does.
\<close>

record example_world =
  importable :: "string list"
  extensions :: "string list"
  disk :: "(string \<times> string) list"
  dirs :: "string list"
  web :: "(string \<times> string) list"

definition example_sys :: "example_world sys" where
  "example_sys =
     \<lparr>load_extension = (\<lambda>m w.
          if m \<in> set (extensions w) then (Some ExtensionAlreadyLoaded, w)
          else if m \<notin> set (importable w) then (Some ExtensionNotFound, w)
          else (None, w\<lparr>extensions := extensions w @ [m]\<rparr>)),
      unload_extension = (\<lambda>m w.
          if m \<notin> set (extensions w) then (Some ExtensionNotLoaded, w)
          else (None, w\<lparr>extensions := removeAll m (extensions w)\<rparr>)),
      reload_extension = (\<lambda>m w.
          if m \<notin> set (extensions w) then (Some ExtensionNotLoaded, w)
          else if m \<notin> set (importable w) then (Some ExtensionNotFound, w)
          else (None, w)),
      path_exists = (\<lambda>p w. p \<in> set (dirs w) \<or> p \<in> fst ` set (disk w)),
      mkdir = (\<lambda>p w. (None, w\<lparr>dirs := dirs w @ [p]\<rparr>)),
      makedirs = (\<lambda>p w. (None, if p \<in> set (dirs w) then w else w\<lparr>dirs := dirs w @ [p]\<rparr>)),
      requests_get = (\<lambda>url w.
          case map_of (web w) url of
            None \<Rightarrow> (Inl RequestsConnectionError, w)
          | Some body \<Rightarrow> (Inr body, w)),
      write_file = (\<lambda>p c w. (None, w\<lparr>disk := AList.update p c (disk w)\<rparr>)),
      read_file = (\<lambda>p w. case map_of (disk w) p of None \<Rightarrow> Inl OSError | Some c \<Rightarrow> Inr c)\<rparr>"

text \<open>
  The plugin \<open>demo\<close> with identifier 1: its stored record with a given enabled flag, the
  storage holding that record and one file row per declared path, and the plugin object
  with a given enabled flag and given local files, none missing. The world \<open>demo_world\<close>
  has the plugin's folder, the listed modules importable, the listed extensions loaded,
  the listed files of the plugin on disk and the listed files served at their URLs.
\<close>

definition demo_data :: "bool \<Rightarrow> plugin_data" where
  "demo_data en =
     \<lparr>version = ''1.0'', name = ''Demo'', description = ''demo'', author = ''nobody'',
      folder_name = ''demo'', enabled = en, id_field = 1\<rparr>"

definition demo_url :: "string \<Rightarrow> string" where
  "demo_url f = ''http://host/'' @ f"

definition demo_bot :: "bool \<Rightarrow> string list \<Rightarrow> example_world \<Rightarrow> example_world bot" where
  "demo_bot en fs w =
     \<lparr>database =
        \<lparr>plugin_data_table = [demo_data en],
         plugin_files_table = map (\<lambda>f. \<lparr>plugin_id = 1, file_field = f, file_url = demo_url f\<rparr>) fs\<rparr>,
      world = w, host_calls = []\<rparr>"

definition demo_world :: "string list \<Rightarrow> string list \<Rightarrow> string list \<Rightarrow> string list \<Rightarrow> example_world" where
  "demo_world imp exts on_disk served =
     \<lparr>importable = imp, extensions = exts,
      disk = map (\<lambda>f. (''plugins/demo/'' @ f, ''# '' @ f)) on_disk,
      dirs = [''plugins'', ''plugins/demo''],
      web = map (\<lambda>f. (demo_url f, ''# '' @ f)) served\<rparr>"

definition demo_plugin :: "bool \<Rightarrow> string list \<Rightarrow> plugin" where
  "demo_plugin en lf =
     \<lparr>version = ''1.0'', name = ''Demo'', description = ''demo'', author = ''nobody'',
      folder_name = ''demo'', enabled = en, id_field = 1,
      files = map (\<lambda>f. (f, demo_url f)) lf, empty = (lf = []), local = True,
      non_local_files = [], local_files = lf\<rparr>"

text \<open>
  The disabled plugin \<open>demo\<close> as the resolution step leaves it when none of its declared
  files is on disk.
\<close>

definition demo_missing :: "string list \<Rightarrow> plugin" where
  "demo_missing fs =
     \<lparr>version = ''1.0'', name = ''Demo'', description = ''demo'', author = ''nobody'',
      folder_name = ''demo'', enabled = False, id_field = 1,
      files = map (\<lambda>f. (f, demo_url f)) fs, empty = (fs = []), local = (fs = []),
      non_local_files = map (\<lambda>f. (f, demo_url f)) fs, local_files = []\<rparr>"

text \<open>
  A world in which the folder of \<open>demo\<close> holds a requirements file with the given text.
\<close>

definition demo_requirements :: "string \<Rightarrow> example_world" where
  "demo_requirements text =
     \<lparr>importable = [], extensions = [],
      disk = [(''plugins/demo/requirements.txt'', text)],
      dirs = [''plugins'', ''plugins/demo''], web = []\<rparr>"

section \<open>Properties\<close>

subsection \<open>Runs of host calls\<close>

lemma call_host_world:
  "call_host sys op m bt =
     (fst (host_fun sys op m (world bt)),
      bt\<lparr>world := snd (host_fun sys op m (world bt)), host_calls := host_calls bt @ [(op, m)]\<rparr>)"
  by (simp add: call_host_def split: prod.split)

lemma host_loop_all_ok:
  "host_ok (host_fun sys op) ms (world bt) \<Longrightarrow>
   host_loop sys op ms bt =
     (None, bt\<lparr>world := host_after (host_fun sys op) ms (world bt),
               host_calls := host_calls bt @ map (Pair op) ms\<rparr>)"
proof (induction ms arbitrary: bt)
  case Nil
  show ?case by simp
next
  case (Cons m ms)
  then show ?case by (simp add: call_host_world)
qed

lemma host_loop_first_failure:
  "k < length ms \<Longrightarrow> host_ok (host_fun sys op) (take k ms) (world bt) \<Longrightarrow>
   host_fun sys op (ms ! k) (host_after (host_fun sys op) (take k ms) (world bt)) = (Some e, w') \<Longrightarrow>
   host_loop sys op ms bt =
     (Some e, bt\<lparr>world := w', host_calls := host_calls bt @ map (Pair op) (take (Suc k) ms)\<rparr>)"
proof (induction ms arbitrary: bt k)
  case Nil
  then show ?case by simp
next
  case (Cons m ms)
  show ?case
  proof (cases k)
    case 0
    with Cons.prems show ?thesis by (simp add: call_host_world)
  next
    case (Suc j)
    with Cons.prems have ok: "fst (host_fun sys op m (world bt)) = None" by simp
    let ?bt = "bt\<lparr>world := snd (host_fun sys op m (world bt)),
                  host_calls := host_calls bt @ [(op, m)]\<rparr>"
    from Cons.prems Suc have "host_loop sys op ms ?bt =
      (Some e, ?bt\<lparr>world := w', host_calls := host_calls ?bt @ map (Pair op) (take (Suc j) ms)\<rparr>)"
      by (intro Cons.IH) simp_all
    with ok Suc show ?thesis by (simp add: call_host_world)
  qed
qed

text \<open>The loop of \<^verbatim>\<open>load\<close> is a run of host calls followed by its handler.\<close>

lemma load_loop_host_loop:
  "load_loop sys ms (self, bt) =
     (case host_loop sys Load ms bt of
        (None, bt') \<Rightarrow> (Inr True, self, bt')
      | (Some e, bt') \<Rightarrow>
          if e \<in> {ExtensionFailed, ExtensionNotFound, ExtensionNotLoaded, NoEntryPointError}
          then (Inr False, self\<lparr>enabled := False\<rparr>, bt')
          else (Inl e, self, bt'))"
  by (induction ms arbitrary: bt) (auto split: prod.splits option.splits)

subsection \<open>Loading a disabled plugin\<close>

text \<open>
  Claim C6. For a plugin whose \<open>enabled\<close> flag is false, \<open>load\<close> returns false and
  leaves the plugin and the bot as they were: the world is the same and the history of
  host calls has no new entry.
\<close>

theorem load_disabled_no_effect:
  "\<not> enabled self \<Longrightarrow> load sys (self, bt) = (Inr False, self, bt)"
  by (simp add: load_def)

theorem load_disabled_no_effect_witness:
  "\<not> enabled (demo_plugin False [''a.py'']) \<and>
   load example_sys
     (demo_plugin False [''a.py''],
      demo_bot False [''a.py''] (demo_world [''plugins.demo.a''] [] [''a.py''] [])) =
     (Inr False, demo_plugin False [''a.py''],
      demo_bot False [''a.py''] (demo_world [''plugins.demo.a''] [] [''a.py''] []))"
  using load_disabled_no_effect [of "demo_plugin False [''a.py'']" example_sys
      "demo_bot False [''a.py''] (demo_world [''plugins.demo.a''] [] [''a.py''] [])"]
  by (simp add: demo_plugin_def)

subsection \<open>Loading an enabled plugin\<close>

text \<open>
  What \<open>load\<close> does on an enabled plugin, by the outcome of the host: all calls succeed;
  the call for file \<open>k\<close> (counted from 0) is the first to fail, with an exception that the
  handler takes; or with one that it does not take.
\<close>

lemma load_all_ok:
  assumes "enabled self"
    and "host_ok (load_extension sys) (map (generate_safe_path self) (local_files self)) (world bt)"
  shows "load sys (self, bt) =
     (Inr True, self,
      bt\<lparr>world := host_after (load_extension sys)
                 (map (generate_safe_path self) (local_files self)) (world bt),
         host_calls := host_calls bt @
                 map (Pair Load) (map (generate_safe_path self) (local_files self))\<rparr>)"
  using assms host_loop_all_ok [of sys Load _ bt]
  by (simp add: load_def load_loop_host_loop)

lemma load_first_failure:
  assumes "enabled self"
    and "k < length (local_files self)"
    and "host_ok (load_extension sys)
           (take k (map (generate_safe_path self) (local_files self))) (world bt)"
    and "load_extension sys (generate_safe_path self (local_files self ! k))
           (host_after (load_extension sys)
              (take k (map (generate_safe_path self) (local_files self))) (world bt)) = (Some e, w')"
  shows "load sys (self, bt) =
     (if e \<in> {ExtensionFailed, ExtensionNotFound, ExtensionNotLoaded, NoEntryPointError}
      then (Inr False, self\<lparr>enabled := False\<rparr>,
            bt\<lparr>world := w', host_calls := host_calls bt @
                 map (Pair Load) (take (Suc k) (map (generate_safe_path self) (local_files self)))\<rparr>)
      else (Inl e, self,
            bt\<lparr>world := w', host_calls := host_calls bt @
                 map (Pair Load) (take (Suc k) (map (generate_safe_path self) (local_files self)))\<rparr>))"
proof -
  let ?ms = "map (generate_safe_path self) (local_files self)"
  have "host_loop sys Load ?ms bt =
      (Some e, bt\<lparr>world := w', host_calls := host_calls bt @ map (Pair Load) (take (Suc k) ?ms)\<rparr>)"
    using assms by (intro host_loop_first_failure) simp_all
  with assms(1) show ?thesis
    by (simp add: load_def load_loop_host_loop)
qed

text \<open>
  The plugin \<open>demo\<close> with two files on disk is what the constructor builds from the stored
  record and its two file rows.
\<close>

lemma demo_plugin_constructed:
  "fst (init example_sys (demo_data True)
          (demo_bot True [''a.py'', ''b.py'']
             (demo_world [''plugins.demo.a'', ''plugins.demo.b''] [''plugins.demo.b'']
                [''a.py'', ''b.py''] []))) =
   Inr (demo_plugin True [''a.py'', ''b.py''])"
  by (simp add: init_def get_files_def exists_localy_def demo_data_def demo_bot_def
      demo_world_def demo_plugin_def demo_url_def example_sys_def)

text \<open>
  Claim C1, at a failing input. The enabled plugin \<open>demo\<close> has the local files \<open>a.py\<close> and
  \<open>b.py\<close>; the extension \<open>plugins.demo.b\<close> is loaded in the bot already. The host loads the
  first file and reports the second as already loaded. \<open>load\<close> has then called the host
  twice and the first file stays loaded, but the exception leaves \<open>load\<close>: no value is
  returned and \<open>enabled\<close> is still true.
\<close>

theorem load_already_loaded_escapes:
  "(case load example_sys
           (demo_plugin True [''a.py'', ''b.py''],
            demo_bot True [''a.py'', ''b.py'']
              (demo_world [''plugins.demo.a'', ''plugins.demo.b''] [''plugins.demo.b'']
                 [''a.py'', ''b.py''] [])) of
      (r, self', bt') \<Rightarrow>
        r = Inl ExtensionAlreadyLoaded \<and> enabled self' \<and>
        host_calls bt' = [(Load, ''plugins.demo.a''), (Load, ''plugins.demo.b'')] \<and>
        extensions (world bt') = [''plugins.demo.b'', ''plugins.demo.a''])"
  by (simp add: load_def generate_safe_path_def call_host_def demo_bot_def demo_world_def
      demo_plugin_def example_sys_def)

subsection \<open>A plugin without files\<close>

text \<open>
  Claim C4. When the storage holds no file row for the record, the constructor either
  returns a plugin, and then \<open>empty\<close> is true and \<open>enabled\<close> is false whatever the record's
  flag, or it ends with the exception of \<^verbatim>\<open>os.mkdir\<close> on a missing plugin folder.
\<close>

theorem init_empty_forces_disabled:
  assumes "get_files pd (database bt) = []"
  shows "case fst (init sys pd bt) of
           Inr self \<Rightarrow> empty self \<and> \<not> enabled self
         | Inl e \<Rightarrow> \<not> path_exists sys (''plugins/'' @ folder_name pd) (world bt) \<and>
                    fst (mkdir sys (''plugins/'' @ folder_name pd) (world bt)) = Some e"
  using assms
  by (auto simp: init_def exists_localy_def Let_def split: prod.splits option.splits sum.splits)

theorem init_empty_forces_disabled_witness:
  "enabled (demo_data True) \<and>
   (\<exists>self. fst (init example_sys (demo_data True) (demo_bot True [] (demo_world [] [] [] []))) =
      Inr self \<and> empty self \<and> \<not> enabled self)"
  using init_empty_forces_disabled [of "demo_data True" "demo_bot True [] (demo_world [] [] [] [])"
      example_sys]
  by (simp add: init_def get_files_def exists_localy_def demo_data_def demo_bot_def
      demo_world_def example_sys_def)

subsection \<open>Unloading and reloading\<close>

lemma generate_safe_path_enabled [simp]:
  "generate_safe_path (self\<lparr>enabled := v\<rparr>) = generate_safe_path self"
  by (rule ext) (simp add: generate_safe_path_def)

text \<open>
  Claim C10. Neither \<open>unload\<close> nor \<open>reload\<close> reads the \<open>enabled\<close> flag: the value returned
  and the bot left behind are the same for either value of the flag. When every host
  call of the run over the local files succeeds, the method returns true, the plugin is
  as before, and the host has been called once per local file, in the order of
  \<open>local_files\<close>.
\<close>

theorem unload_reload_ignore_enabled:
  "(host_ok (unload_extension sys) (map (generate_safe_path self) (local_files self)) (world bt) \<longrightarrow>
      unload sys (self, bt) =
        (Inr True, self,
         bt\<lparr>world := host_after (unload_extension sys)
                    (map (generate_safe_path self) (local_files self)) (world bt),
            host_calls := host_calls bt @
                    map (\<lambda>f. (Unload, generate_safe_path self f)) (local_files self)\<rparr>)) \<and>
   (host_ok (reload_extension sys) (map (generate_safe_path self) (local_files self)) (world bt) \<longrightarrow>
      reload sys (self, bt) =
        (Inr True, self,
         bt\<lparr>world := host_after (reload_extension sys)
                    (map (generate_safe_path self) (local_files self)) (world bt),
            host_calls := host_calls bt @
                    map (\<lambda>f. (Reload, generate_safe_path self f)) (local_files self)\<rparr>)) \<and>
   fst (unload sys (self\<lparr>enabled := v\<rparr>, bt)) = fst (unload sys (self, bt)) \<and>
   snd (snd (unload sys (self\<lparr>enabled := v\<rparr>, bt))) = snd (snd (unload sys (self, bt))) \<and>
   fst (reload sys (self\<lparr>enabled := v\<rparr>, bt)) = fst (reload sys (self, bt)) \<and>
   snd (snd (reload sys (self\<lparr>enabled := v\<rparr>, bt))) = snd (snd (reload sys (self, bt)))"
proof -
  let ?ms = "map (generate_safe_path self) (local_files self)"
  have u: "host_ok (unload_extension sys) ?ms (world bt) \<Longrightarrow>
      unload sys (self, bt) =
        (Inr True, self,
         bt\<lparr>world := host_after (unload_extension sys) ?ms (world bt),
            host_calls := host_calls bt @
               map (\<lambda>f. (Unload, generate_safe_path self f)) (local_files self)\<rparr>)"
    using host_loop_all_ok [of sys Unload ?ms bt] by (simp add: unload_def comp_def)
  have r: "host_ok (reload_extension sys) ?ms (world bt) \<Longrightarrow>
      reload sys (self, bt) =
        (Inr True, self,
         bt\<lparr>world := host_after (reload_extension sys) ?ms (world bt),
            host_calls := host_calls bt @
               map (\<lambda>f. (Reload, generate_safe_path self f)) (local_files self)\<rparr>)"
    using host_loop_all_ok [of sys Reload ?ms bt] by (simp add: reload_def comp_def)
  have iu: "fst (unload sys (self\<lparr>enabled := v\<rparr>, bt)) = fst (unload sys (self, bt)) \<and>
      snd (snd (unload sys (self\<lparr>enabled := v\<rparr>, bt))) = snd (snd (unload sys (self, bt)))"
    by (simp add: unload_def split: prod.splits option.splits)
  have ir: "fst (reload sys (self\<lparr>enabled := v\<rparr>, bt)) = fst (reload sys (self, bt)) \<and>
      snd (snd (reload sys (self\<lparr>enabled := v\<rparr>, bt))) = snd (snd (reload sys (self, bt)))"
    by (simp add: reload_def split: prod.splits option.splits)
  from u r iu ir show ?thesis by blast
qed

text \<open>
  The disabled plugin \<open>demo\<close> with both its extensions loaded: \<open>unload\<close> calls the host for
  \<open>a.py\<close>, then for \<open>b.py\<close>, and returns true; \<open>reload\<close> does the same with the host's
  reload operation.
\<close>

theorem unload_reload_ignore_enabled_witness:
  "\<not> enabled (demo_plugin False [''a.py'', ''b.py'']) \<and>
   (case unload example_sys
           (demo_plugin False [''a.py'', ''b.py''],
            demo_bot False [''a.py'', ''b.py'']
              (demo_world [''plugins.demo.a'', ''plugins.demo.b'']
                 [''plugins.demo.a'', ''plugins.demo.b''] [''a.py'', ''b.py''] [])) of
      (r, self', bt') \<Rightarrow>
        r = Inr True \<and> self' = demo_plugin False [''a.py'', ''b.py''] \<and>
        host_calls bt' = [(Unload, ''plugins.demo.a''), (Unload, ''plugins.demo.b'')] \<and>
        extensions (world bt') = []) \<and>
   (case reload example_sys
           (demo_plugin False [''a.py'', ''b.py''],
            demo_bot False [''a.py'', ''b.py'']
              (demo_world [''plugins.demo.a'', ''plugins.demo.b'']
                 [''plugins.demo.a'', ''plugins.demo.b''] [''a.py'', ''b.py''] [])) of
      (r, self', bt') \<Rightarrow>
        r = Inr True \<and> self' = demo_plugin False [''a.py'', ''b.py''] \<and>
        host_calls bt' = [(Reload, ''plugins.demo.a''), (Reload, ''plugins.demo.b'')])"
  using unload_reload_ignore_enabled [of example_sys "demo_plugin False [''a.py'', ''b.py'']"
      "demo_bot False [''a.py'', ''b.py'']
         (demo_world [''plugins.demo.a'', ''plugins.demo.b'']
            [''plugins.demo.a'', ''plugins.demo.b''] [''a.py'', ''b.py''] [])" True]
  by (simp add: generate_safe_path_def demo_bot_def demo_world_def demo_plugin_def example_sys_def)

subsection \<open>What a download batch changes\<close>

text \<open>
  The loop downloads a prefix of the batch: the paths of that prefix are appended to
  \<open>local_files\<close> and nothing else of the plugin changes; the prefix is the whole batch when
  no exception ends the loop. The host is not called and the storage is not written.
\<close>

lemma download_loop_prefix:
  "download_loop sys nl (self, bt) = (r, self', bt') \<Longrightarrow>
   \<exists>k\<le>length nl.
     self' = self\<lparr>local_files := local_files self @ map fst (take k nl)\<rparr> \<and>
     (r = None \<longrightarrow> k = length nl) \<and> (r \<noteq> None \<longrightarrow> k < length nl) \<and>
     host_calls bt' = host_calls bt \<and> database bt' = database bt"
proof (induction nl arbitrary: self bt)
  case Nil
  then show ?case by auto
next
  case (Cons p rest)
  obtain f link where p: "p = (f, link)" by (cases p)
  obtain g w1 where g: "requests_get sys link (world bt) = (g, w1)" by (cases "requests_get sys link (world bt)")
  show ?case
  proof (cases g)
    case (Inl e)
    with Cons.prems p g have "self' = self" "r = Some e" "bt' = bt\<lparr>world := w1\<rparr>" by auto
    then show ?thesis by (intro exI [of _ 0]) simp
  next
    case (Inr content)
    obtain m w2 where m: "makedirs sys (dirname (''plugins/'' @ folder_name self @ ''/'' @ f)) w1 = (m, w2)"
      by (cases "makedirs sys (dirname (''plugins/'' @ folder_name self @ ''/'' @ f)) w1")
    show ?thesis
    proof (cases m)
      case (Some e)
      with Cons.prems p g Inr m have "self' = self" "r = Some e" "bt' = bt\<lparr>world := w2\<rparr>" by auto
      then show ?thesis by (intro exI [of _ 0]) simp
    next
      case None
      obtain x w3 where x: "write_file sys (''plugins/'' @ folder_name self @ ''/'' @ f) content w2 = (x, w3)"
        by (cases "write_file sys (''plugins/'' @ folder_name self @ ''/'' @ f) content w2")
      show ?thesis
      proof (cases x)
        case (Some e)
        with Cons.prems p g Inr m None x have "self' = self" "r = Some e" "bt' = bt\<lparr>world := w3\<rparr>"
          by auto
        then show ?thesis by (intro exI [of _ 0]) simp
      next
        case n: None
        let ?self = "self\<lparr>local_files := local_files self @ [f]\<rparr>"
        from Cons.prems p g Inr m None x n
        have "download_loop sys rest (?self, bt\<lparr>world := w3\<rparr>) = (r, self', bt')" by simp
        from Cons.IH [OF this] obtain k where k: "k \<le> length rest"
          "self' = ?self\<lparr>local_files := local_files ?self @ map fst (take k rest)\<rparr>"
          "r = None \<longrightarrow> k = length rest" "r \<noteq> None \<longrightarrow> k < length rest"
          "host_calls bt' = host_calls bt" "database bt' = database bt" by auto
        then show ?thesis using p by (intro exI [of _ "Suc k"]) simp
      qed
    qed
  qed
qed


subsection \<open>What the constructor builds\<close>




subsection \<open>Sequences of operations on a plugin without local files\<close>








subsection \<open>Local and missing files\<close>

text \<open>
  The dict of declared files has distinct keys, and the resolution step sorts its
  entries, in order, by the presence of the file on disk.
\<close>

lemma foldl_update_distinct:
  "distinct (map fst acc) \<Longrightarrow>
   distinct (map fst (foldl (\<lambda>acc r. AList.update (file_field r) (file_url r) acc) acc rows))"
  by (induction rows arbitrary: acc) (simp_all add: distinct_update)

lemma get_files_distinct: "distinct (map fst (get_files pd d))"
  by (simp add: get_files_def foldl_update_distinct)

lemma exists_localy_loop_eq:
  "exists_localy_loop sys folder w fs (loc, nlf, lf) =
     (loc \<and> list_all (\<lambda>f. path_exists sys (''plugins/'' @ folder @ ''/'' @ f) w) (map fst fs),
      nlf @ filter (\<lambda>p. \<not> path_exists sys (''plugins/'' @ folder @ ''/'' @ fst p) w) fs,
      lf @ filter (\<lambda>f. path_exists sys (''plugins/'' @ folder @ ''/'' @ f) w) (map fst fs))"
  by (induction fs arbitrary: loc nlf lf) auto

lemma exists_localy_eq:
  "exists_localy sys folder fs w =
     (list_all (\<lambda>f. path_exists sys (''plugins/'' @ folder @ ''/'' @ f) w) (map fst fs),
      filter (\<lambda>p. \<not> path_exists sys (''plugins/'' @ folder @ ''/'' @ fst p) w) fs,
      filter (\<lambda>f. path_exists sys (''plugins/'' @ folder @ ''/'' @ f) w) (map fst fs))"
  by (simp add: exists_localy_def exists_localy_loop_eq)

lemma exists_localy_partition:
  assumes "exists_localy sys folder fs w = (loc, nlf, lf)"
  shows "set lf \<union> fst ` set nlf = fst ` set fs" and "set lf \<inter> fst ` set nlf = {}"
    and "loc = (nlf = [])"
    and "distinct (map fst fs) \<Longrightarrow> distinct lf \<and> distinct (map fst nlf)"
proof -
  let ?ex = "\<lambda>f. path_exists sys (''plugins/'' @ folder @ ''/'' @ f) w"
  from assms have nlf: "nlf = filter (\<lambda>p. \<not> ?ex (fst p)) fs"
    and lf: "lf = filter ?ex (map fst fs)" and loc: "loc = list_all ?ex (map fst fs)"
    by (simp_all add: exists_localy_eq)
  show "set lf \<union> fst ` set nlf = fst ` set fs" unfolding nlf lf by force
  show "set lf \<inter> fst ` set nlf = {}" unfolding nlf lf by force
  show "loc = (nlf = [])" unfolding nlf loc
    by (induction fs) auto
  show "distinct lf \<and> distinct (map fst nlf)" if "distinct (map fst fs)"
    using that unfolding nlf lf by (simp add: distinct_map_filter)
qed

text \<open>No exposed operation touches the three file attributes.\<close>

lemma apply_op_files:
  "files (fst (apply_op sys op sb)) = files (fst sb) \<and>
   local_files (fst (apply_op sys op sb)) = local_files (fst sb) \<and>
   non_local_files (fst (apply_op sys op sb)) = non_local_files (fst sb)"
  by (cases sb; cases op)
    (auto simp: enable_def disable_def load_def load_loop_host_loop unload_def reload_def
      split: prod.splits option.splits)

lemma run_files:
  "files (fst (run sys ops sb)) = files (fst sb) \<and>
   local_files (fst (run sys ops sb)) = local_files (fst sb) \<and>
   non_local_files (fst (run sys ops sb)) = non_local_files (fst sb)"
proof (induction ops arbitrary: sb)
  case Nil
  show ?case by (simp add: run_def)
next
  case (Cons op ops)
  from Cons [of "apply_op sys op sb"] apply_op_files [of sys op sb]
  show ?case by (simp add: run_def)
qed

text \<open>
  What the batch appends, said exactly: the paths of the files at the head of the batch
  whose download succeeds.
\<close>

lemma download_loop_step:
  "download_loop sys (p # rest) (self, bt) =
     (case fetch_file sys (folder_name self) p (world bt) of
        (Some e, w') \<Rightarrow> (Some e, self, bt\<lparr>world := w'\<rparr>)
      | (None, w') \<Rightarrow>
          download_loop sys rest
            (self\<lparr>local_files := local_files self @ [fst p]\<rparr>, bt\<lparr>world := w'\<rparr>))"
  by (cases p) (simp split: prod.splits sum.splits option.splits)

lemma downloaded_le: "downloaded sys folder nl w \<le> length nl"
  by (induction nl arbitrary: w) (auto split: prod.splits option.splits)

lemma download_loop_exact:
  "download_loop sys nl (self, bt) = (r, self', bt') \<Longrightarrow>
   self' = self\<lparr>local_files := local_files self @
              map fst (take (downloaded sys (folder_name self) nl (world bt)) nl)\<rparr> \<and>
   (r = None) = (downloaded sys (folder_name self) nl (world bt) = length nl)"
proof (induction nl arbitrary: self bt)
  case Nil
  then show ?case by simp
next
  case (Cons p rest)
  obtain x w' where f: "fetch_file sys (folder_name self) p (world bt) = (x, w')"
    by (cases "fetch_file sys (folder_name self) p (world bt)")
  show ?case
  proof (cases x)
    case (Some e)
    with Cons.prems f have "self' = self" "r = Some e"
      by (simp_all add: download_loop_step del: download_loop.simps)
    with f Some show ?thesis by simp
  next
    case None
    let ?self = "self\<lparr>local_files := local_files self @ [fst p]\<rparr>"
    from Cons.prems f None
    have "download_loop sys rest (?self, bt\<lparr>world := w'\<rparr>) = (r, self', bt')"
      by (simp add: download_loop_step del: download_loop.simps)
    from Cons.IH [OF this] f None show ?thesis by simp
  qed
qed

lemma download_exact:
  assumes "download sys (self, bt) = (r, self', bt')"
  shows "self' = self\<lparr>local_files := local_files self @
            map fst (take (downloaded sys (folder_name self) (non_local_files self) (world bt))
              (non_local_files self))\<rparr>"
proof -
  obtain r0 where "download_loop sys (non_local_files self) (self, bt) = (r0, self', bt')"
    using assms by (auto simp: download_def split: prod.splits option.splits if_splits)
  from download_loop_exact [OF this] show ?thesis by blast
qed

lemma init_Inr_exact:
  assumes "init sys pd bt0 = (Inr self, bt)"
    and "exists_localy sys (folder_name pd) (get_files pd (database bt0))
           (ensured_world sys (folder_name pd) (world bt0)) = (loc, nlf, lf)"
  shows "files self = get_files pd (database bt0) \<and> local self = loc \<and>
     non_local_files self = nlf \<and>
     local_files self = lf @ map fst (take
       (if \<not> loc \<and> get_files pd (database bt0) \<noteq> [] \<and> \<not> enabled pd
        then downloaded sys (folder_name pd) nlf (ensured_world sys (folder_name pd) (world bt0))
        else 0) nlf) \<and>
     enabled self = (enabled pd \<and> get_files pd (database bt0) \<noteq> [])"
proof -
  let ?dir = "''plugins/'' @ folder_name pd"
  let ?mk = "if \<not> path_exists sys ?dir (world bt0) then mkdir sys ?dir (world bt0)
             else (None, world bt0)"
  let ?w1 = "ensured_world sys (folder_name pd) (world bt0)"
  have mk: "?mk = (None, ?w1)"
    using assms(1) by (cases ?mk) (auto simp: init_def ensured_world_def split: option.splits if_splits)
  let ?fs = "get_files pd (database bt0)"
  let ?self = "\<lparr>version = version pd, name = name pd, description = description pd,
       author = author pd, folder_name = folder_name pd,
       enabled = (if ?fs = [] then False else enabled pd), id_field = id_field pd,
       files = ?fs, empty = (?fs = []), local = loc, non_local_files = nlf,
       local_files = lf\<rparr>"
  let ?bt = "bt0\<lparr>world := ?w1\<rparr>"
  show ?thesis
  proof (cases "\<not> loc \<and> ?fs \<noteq> [] \<and> \<not> enabled pd")
    case True
    with assms mk have "download sys (?self, ?bt) = (None, self, bt)"
      by (auto simp: init_def Let_def split: prod.splits option.splits)
    from download_exact [OF this] True show ?thesis by simp
  next
    case False
    with assms mk have "self = ?self"
      by (auto simp: init_def Let_def split: prod.splits option.splits if_splits)
    with False show ?thesis by auto
  qed
qed

text \<open>
  Claim C2 as stated fails after a download batch. The disabled plugin \<open>demo\<close> declares
  \<open>a.py\<close>, which is missing on disk and served at its URL: the constructor downloads it,
  and the path is then in \<open>local_files\<close> and still in \<open>non_local_files\<close>.
\<close>

theorem downloaded_file_in_both_lists_counterexample:
  "(case init example_sys (demo_data False)
           (demo_bot False [''a.py''] (demo_world [] [] [] [''a.py''])) of
      (Inr self, bt) \<Rightarrow>
        files self = [(''a.py'', ''http://host/a.py'')] \<and>
        local_files self = [''a.py''] \<and>
        non_local_files self = [(''a.py'', ''http://host/a.py'')] \<and>
        set (local_files self) \<inter> fst ` set (non_local_files self) \<noteq> {}
    | (Inl e, bt) \<Rightarrow> False)"
  by (simp add: init_def get_files_def exists_localy_def download_def dirname_def Let_def
      demo_data_def demo_bot_def demo_world_def demo_url_def example_sys_def)


text \<open>
  Claim C2, amended. Right after the resolution step every declared path is in exactly
  one of the two lists. A download batch leaves \<open>files\<close> and \<open>non_local_files\<close> as they
  are and appends to \<open>local_files\<close> the path of each file it downloads: the files at the
  head of \<open>non_local_files\<close> whose GET, directories and write succeed. In a plugin that
  the constructor returns, and after any sequence of \<open>enable\<close>, \<open>disable\<close>, \<open>load\<close>,
  \<open>unload\<close> and \<open>reload\<close> (which change none of the three attributes), \<open>non_local_files\<close>
  is the list of the resolution step and \<open>local_files\<close> is the list of the resolution
  step followed by the paths downloaded, where the constructor downloads only when files
  are declared, some are missing and the plugin is disabled. So the keys of \<open>files\<close>
  are distinct and are the union of the paths of the two lists, and the paths in both
  lists are exactly the downloaded ones.
\<close>

theorem files_partition:
  "(exists_localy sys folder fs w = (loc, nlf, lf) \<longrightarrow>
      set lf \<union> fst ` set nlf = fst ` set fs \<and> set lf \<inter> fst ` set nlf = {}) \<and>
   (download sys (self0, bt1) = (r, self1, bt2) \<longrightarrow>
      files self1 = files self0 \<and> non_local_files self1 = non_local_files self0 \<and>
      local_files self1 = local_files self0 @
        map fst (take (downloaded sys (folder_name self0) (non_local_files self0) (world bt1))
          (non_local_files self0))) \<and>
   (init sys pd bt0 = (Inr self, bt) \<and> self' = fst (run sys ops (self, bt)) \<and>
    exists_localy sys (folder_name pd) (get_files pd (database bt0))
      (ensured_world sys (folder_name pd) (world bt0)) = (loc', nlf', lf') \<and>
    k = (if \<not> loc' \<and> get_files pd (database bt0) \<noteq> [] \<and> \<not> enabled pd
         then downloaded sys (folder_name pd) nlf' (ensured_world sys (folder_name pd) (world bt0))
         else 0) \<longrightarrow>
      files self' = files self \<and> local_files self' = local_files self \<and>
      non_local_files self' = non_local_files self \<and>
      distinct (map fst (files self')) \<and>
      non_local_files self' = nlf' \<and> local_files self' = lf' @ map fst (take k nlf') \<and>
      k \<le> length nlf' \<and>
      set (local_files self') \<union> fst ` set (non_local_files self') = fst ` set (files self') \<and>
      set (local_files self') \<inter> fst ` set (non_local_files self') = fst ` set (take k nlf') \<and>
      (local self \<or> enabled self \<longrightarrow> k = 0))"
proof (intro conjI impI)
  assume "exists_localy sys folder fs w = (loc, nlf, lf)"
  from exists_localy_partition(1,2) [OF this]
  show "set lf \<union> fst ` set nlf = fst ` set fs" and "set lf \<inter> fst ` set nlf = {}" .
next
  assume "download sys (self0, bt1) = (r, self1, bt2)"
  from download_exact [OF this]
  have s: "self1 = self0\<lparr>local_files := local_files self0 @
      map fst (take (downloaded sys (folder_name self0) (non_local_files self0) (world bt1))
        (non_local_files self0))\<rparr>" .
  show "files self1 = files self0" by (subst s) simp
  show "non_local_files self1 = non_local_files self0" by (subst s) simp
  show "local_files self1 = local_files self0 @
      map fst (take (downloaded sys (folder_name self0) (non_local_files self0) (world bt1))
        (non_local_files self0))" by (subst s) simp
next
  let ?w1 = "ensured_world sys (folder_name pd) (world bt0)"
  let ?fs = "get_files pd (database bt0)"
  assume a: "init sys pd bt0 = (Inr self, bt) \<and> self' = fst (run sys ops (self, bt)) \<and>
    exists_localy sys (folder_name pd) ?fs ?w1 = (loc', nlf', lf') \<and>
    k = (if \<not> loc' \<and> ?fs \<noteq> [] \<and> \<not> enabled pd
         then downloaded sys (folder_name pd) nlf' ?w1 else 0)"
  then have i: "init sys pd bt0 = (Inr self, bt)"
    and r: "exists_localy sys (folder_name pd) ?fs ?w1 = (loc', nlf', lf')"
    and k: "k = (if \<not> loc' \<and> ?fs \<noteq> [] \<and> \<not> enabled pd
         then downloaded sys (folder_name pd) nlf' ?w1 else 0)" by simp_all
  from a run_files [of sys ops "(self, bt)"]
  have same: "files self' = files self" "local_files self' = local_files self"
    "non_local_files self' = non_local_files self" by simp_all
  from init_Inr_exact [OF i r] k
  have *: "files self = ?fs" "local self = loc'" "non_local_files self = nlf'"
    "local_files self = lf' @ map fst (take k nlf')"
    "enabled self = (enabled pd \<and> ?fs \<noteq> [])" by simp_all
  note p = exists_localy_partition [OF r]
  show "files self' = files self" "local_files self' = local_files self"
    "non_local_files self' = non_local_files self" by (fact same)+
  show "distinct (map fst (files self'))" by (simp add: same * get_files_distinct)
  show "non_local_files self' = nlf'" by (simp add: same *)
  show "local_files self' = lf' @ map fst (take k nlf')" by (simp add: same *)
  show "k \<le> length nlf'" unfolding k by (simp add: downloaded_le)
  have sub: "fst ` set (take k nlf') \<subseteq> fst ` set nlf'"
    by (meson image_mono set_take_subset)
  from sub have u: "fst ` set (take k nlf') \<union> fst ` set nlf' = fst ` set nlf'"
    by (rule Un_absorb1)
  from sub have n: "fst ` set (take k nlf') \<inter> fst ` set nlf' = fst ` set (take k nlf')"
    by (rule Int_absorb2)
  from p(1) u
  show "set (local_files self') \<union> fst ` set (non_local_files self') = fst ` set (files self')"
    unfolding same * by (simp add: Un_assoc)
  from p(2) n
  show "set (local_files self') \<inter> fst ` set (non_local_files self') = fst ` set (take k nlf')"
    unfolding same * by (simp add: Int_Un_distrib2)
  show "k = 0" if "local self \<or> enabled self"
    using that unfolding k * by auto
qed

text \<open>
  The disabled plugin \<open>demo\<close> declares \<open>a.py\<close> and \<open>b.py\<close>; \<open>b.py\<close> is on disk and \<open>a.py\<close> is
  missing and served at its URL. The resolution step sorts the two, the constructor
  downloads one file, and \<open>a.py\<close> follows \<open>b.py\<close> in \<open>local_files\<close>, also after \<open>enable\<close>
  and \<open>load\<close>.
\<close>

theorem files_partition_witness:
  "(case exists_localy example_sys ''demo''
           [(''a.py'', ''http://host/a.py''), (''b.py'', ''http://host/b.py'')]
           (demo_world [] [] [''b.py''] [''a.py'']) of
      (loc, nlf, lf) \<Rightarrow> \<not> loc \<and> nlf = [(''a.py'', ''http://host/a.py'')] \<and> lf = [''b.py'']) \<and>
   downloaded example_sys ''demo'' [(''a.py'', ''http://host/a.py'')]
     (demo_world [] [] [''b.py''] [''a.py'']) = 1 \<and>
   (case init example_sys (demo_data False)
           (demo_bot False [''a.py'', ''b.py''] (demo_world [] [] [''b.py''] [''a.py''])) of
      (Inr self, bt) \<Rightarrow>
        local_files (fst (run example_sys [OpEnable, OpLoad] (self, bt))) = [''b.py'', ''a.py''] \<and>
        non_local_files (fst (run example_sys [OpEnable, OpLoad] (self, bt))) =
          [(''a.py'', ''http://host/a.py'')]
    | (Inl e, bt) \<Rightarrow> False)"
proof -
  let ?w = "demo_world [] [] [''b.py''] [''a.py'']"
  let ?bt = "demo_bot False [''a.py'', ''b.py''] ?w"
  let ?fs = "[(''a.py'', ''http://host/a.py''), (''b.py'', ''http://host/b.py'')]"
  let ?nlf = "[(''a.py'', ''http://host/a.py'')]"
  let ?ops = "[OpEnable, OpLoad]"
  have g: "get_files (demo_data False) (database ?bt) = ?fs"
    by (simp add: get_files_def demo_data_def demo_bot_def demo_url_def)
  have f: "folder_name (demo_data False) = ''demo''"
    by (simp add: demo_data_def)
  have en: "\<not> enabled (demo_data False)"
    by (simp add: demo_data_def)
  have e: "ensured_world example_sys ''demo'' (world ?bt) = ?w"
    by (simp add: ensured_world_def demo_bot_def demo_world_def example_sys_def)
  have r: "exists_localy example_sys ''demo'' ?fs ?w = (False, ?nlf, [''b.py''])"
    by (simp add: exists_localy_def demo_world_def example_sys_def)
  have d: "downloaded example_sys ''demo'' ?nlf ?w = 1"
    by (simp add: dirname_def demo_world_def demo_url_def example_sys_def)
  obtain self bt where i: "init example_sys (demo_data False) ?bt = (Inr self, bt)"
    by (simp add: init_def get_files_def exists_localy_def download_def dirname_def Let_def
        demo_data_def demo_bot_def demo_world_def demo_url_def example_sys_def)
  have hyp: "init example_sys (demo_data False) ?bt = (Inr self, bt) \<and>
      fst (run example_sys ?ops (self, bt)) = fst (run example_sys ?ops (self, bt)) \<and>
      exists_localy example_sys (folder_name (demo_data False))
        (get_files (demo_data False) (database ?bt))
        (ensured_world example_sys (folder_name (demo_data False)) (world ?bt)) =
        (False, ?nlf, [''b.py'']) \<and>
      1 = (if \<not> False \<and> get_files (demo_data False) (database ?bt) \<noteq> [] \<and>
              \<not> enabled (demo_data False)
           then downloaded example_sys (folder_name (demo_data False)) ?nlf
                  (ensured_world example_sys (folder_name (demo_data False)) (world ?bt))
           else 0)"
    using i en by (simp only: g f e r d) simp
  from files_partition [where sys = example_sys and pd = "demo_data False" and ?bt0.0 = ?bt
      and self = self and bt = bt and ops = ?ops
      and self' = "fst (run example_sys ?ops (self, bt))"
      and loc' = False and nlf' = ?nlf and lf' = "[''b.py'']" and k = 1,
      THEN conjunct2, THEN conjunct2, rule_format, OF hyp]
  have l: "local_files (fst (run example_sys ?ops (self, bt))) = [''b.py''] @ map fst (take 1 ?nlf)"
    and n: "non_local_files (fst (run example_sys ?ops (self, bt))) = ?nlf"
    by blast+
  show ?thesis unfolding r d i by (simp add: l n)
qed

subsection \<open>Exceptions that the handlers take\<close>

text \<open>
  An exception that leaves a method is none of those its handler names. For \<open>download\<close>
  the handler names the built-in \<open>ConnectionError\<close> only; when the loop ends with it, the
  method returns normally and the plugin keeps the files downloaded so far.
\<close>

lemma load_escape:
  "fst (load sys sb) = Inl e \<Longrightarrow>
   e \<notin> {ExtensionFailed, ExtensionNotFound, ExtensionNotLoaded, NoEntryPointError}"
  by (cases sb)
    (auto simp: load_def load_loop_host_loop split: prod.splits option.splits if_splits)

lemma unload_escape:
  "fst (unload sys sb) = Inl e \<Longrightarrow> e \<notin> {ExtensionNotFound, ExtensionNotLoaded}"
  by (auto simp: unload_def split: prod.splits option.splits if_splits)

lemma reload_escape:
  "fst (reload sys sb) = Inl e \<Longrightarrow>
   e \<notin> {ExtensionFailed, ExtensionNotFound, ExtensionNotLoaded, NoEntryPointError}"
  by (auto simp: reload_def split: prod.splits option.splits if_splits)

lemma download_escape: "fst (download sys sb) = Some e \<Longrightarrow> e \<noteq> ConnectionError"
  by (auto simp: download_def split: prod.splits option.splits if_splits)

lemma download_builtin_connection_error:
  assumes "download_loop sys (non_local_files self) (self, bt) = (Some ConnectionError, self', bt')"
  shows "download sys (self, bt) = (None, self', bt')"
    and "\<exists>k<length (non_local_files self).
           self' = self\<lparr>local_files := local_files self @ map fst (take k (non_local_files self))\<rparr>"
proof -
  show "download sys (self, bt) = (None, self', bt')"
    using assms by (simp add: download_def)
  from download_loop_prefix [OF assms]
  show "\<exists>k<length (non_local_files self).
      self' = self\<lparr>local_files := local_files self @ map fst (take k (non_local_files self))\<rparr>"
    by auto
qed

text \<open>
  The state \<open>demo_missing\<close> is the one in which the constructor starts the download.
\<close>

lemma demo_missing_resolved:
  "exists_localy example_sys ''demo''
     (get_files (demo_data False)
        (database (demo_bot False [''a.py'', ''b.py'', ''c.py'']
           (demo_world [] [] [] [''a.py'', ''c.py'']))))
     (demo_world [] [] [] [''a.py'', ''c.py'']) =
   (local (demo_missing [''a.py'', ''b.py'', ''c.py'']),
    non_local_files (demo_missing [''a.py'', ''b.py'', ''c.py'']),
    local_files (demo_missing [''a.py'', ''b.py'', ''c.py'']))"
  by (simp add: get_files_def exists_localy_def demo_data_def demo_bot_def demo_world_def
      demo_url_def demo_missing_def example_sys_def)

text \<open>
  Claim C7, at a failing input. The disabled plugin \<open>demo\<close> misses \<open>a.py\<close>, \<open>b.py\<close> and
  \<open>c.py\<close>; the URLs of \<open>a.py\<close> and \<open>c.py\<close> answer and that of \<open>b.py\<close> cannot be reached, so
  \<^verbatim>\<open>requests.get\<close> raises \<^verbatim>\<open>requests.exceptions.ConnectionError\<close> on the second file.
  The first file is on disk and in \<open>local_files\<close> and the other two are not, but the
  exception leaves \<open>download\<close>, and with it the constructor.
\<close>

theorem download_connection_failure_escapes:
  "(case download example_sys
           (demo_missing [''a.py'', ''b.py'', ''c.py''],
            demo_bot False [''a.py'', ''b.py'', ''c.py'']
              (demo_world [] [] [] [''a.py'', ''c.py''])) of
      (r, self', bt') \<Rightarrow>
        r = Some RequestsConnectionError \<and> local_files self' = [''a.py''] \<and>
        map fst (disk (world bt')) = [''plugins/demo/a.py'']) \<and>
   fst (init example_sys (demo_data False)
          (demo_bot False [''a.py'', ''b.py'', ''c.py'']
             (demo_world [] [] [] [''a.py'', ''c.py'']))) = Inl RequestsConnectionError"
  by (simp add: init_def get_files_def exists_localy_def download_def dirname_def Let_def
      demo_data_def demo_bot_def demo_world_def demo_url_def demo_missing_def example_sys_def)

text \<open>
  Claim C3, at failing inputs. An enabled plugin whose only extension is loaded already:
  the host's report leaves \<open>load\<close> as an exception. A disabled plugin whose only file
  cannot be fetched: the connection failure of \<^verbatim>\<open>requests.get\<close> leaves \<open>download\<close> as an
  exception. Neither becomes a boolean result.
\<close>

theorem exceptions_leave_plugin:
  "fst (load example_sys
          (demo_plugin True [''a.py''],
           demo_bot True [''a.py'']
             (demo_world [''plugins.demo.a''] [''plugins.demo.a''] [''a.py''] []))) =
     Inl ExtensionAlreadyLoaded \<and>
   fst (download example_sys
          (demo_missing [''a.py''], demo_bot False [''a.py''] (demo_world [] [] [] []))) =
     Some RequestsConnectionError"
  by (simp add: load_def generate_safe_path_def call_host_def download_def
      demo_bot_def demo_world_def demo_url_def demo_plugin_def demo_missing_def example_sys_def)

subsection \<open>Module identifiers\<close>

lemma replace_single: "replace [a] [b] s = map (\<lambda>c. if c = a then b else c) s"
  by (induction s) auto

lemma replace_Cons_no_prefix:
  "old \<noteq> [] \<Longrightarrow> \<not> prefix old (c # cs) \<Longrightarrow> replace old new (c # cs) = c # replace old new cs"
  by simp

lemma replace_absent: "old \<noteq> [] \<Longrightarrow> \<not> sublist old s \<Longrightarrow> replace old new s = s"
  by (induction s) (simp_all add: sublist_Cons_right)

lemma generate_safe_path_map:
  "generate_safe_path self path =
     ''plugins.'' @ folder_name self @ ''.'' @ map safe_char (replace ''.py'' '''' path)"
  by (simp add: generate_safe_path_def replace_single safe_char_def)

lemma replace_py_suffix:
  "\<not> sublist ''.py'' (stem @ ''.p'') \<Longrightarrow> replace ''.py'' '''' (stem @ ''.py'') = stem"
proof (induction stem)
  case Nil
  show ?case by simp
next
  case (Cons c cs)
  from Cons.prems have np: "\<not> prefix ''.py'' (c # cs @ ''.p'')"
    and ns: "\<not> sublist ''.py'' (cs @ ''.p'')"
    by (simp_all add: sublist_Cons_right)
  have ne: "''.py'' \<noteq> ([] :: string)" by simp
  have npy: "\<not> prefix ''.py'' (c # cs @ ''.py'')"
  proof (cases cs)
    case Nil
    then show ?thesis by simp
  next
    case c1: (Cons d ds)
    show ?thesis
    proof (cases ds)
      case Nil
      with c1 show ?thesis by simp
    next
      case (Cons e es)
      with c1 np show ?thesis by simp
    qed
  qed
  from replace_Cons_no_prefix [OF ne npy, of "[]"] Cons.IH [OF ns]
  show ?case by (simp only: append_Cons)
qed

lemma safe_char_inj:
  "inj_on safe_char {c. c \<noteq> CHR '' '' \<and> c \<noteq> CHR ''-'' \<and> c \<noteq> CHR ''.''}"
  by (auto simp: inj_on_def safe_char_def split: if_splits)

lemma no_dot_no_py: "CHR ''.'' \<notin> set stem \<Longrightarrow> \<not> sublist ''.py'' (stem @ ''.p'')"
  by (induction stem) (auto simp: sublist_Cons_right)

text \<open>
  Claim C8 as stated fails: \<^verbatim>\<open>replace(".py", "")\<close> removes \<^verbatim>\<open>.py\<close> wherever it stands,
  not only as the suffix, so the path \<open>lib.python/mod.py\<close> loses the \<^verbatim>\<open>.py\<close> of its folder
  name as well; stripping the suffix and normalising gives another identifier. Two
  different paths can also share an identifier.
\<close>

theorem generate_safe_path_counterexample:
  "generate_safe_path (demo_data True) ''lib.python/mod.py'' = ''plugins.demo.libthon.mod'' \<and>
   spec_module_identifier ''demo'' ''lib.python/mod.py'' = ''plugins.demo.lib_python.mod'' \<and>
   ''a b.py'' \<noteq> ''a-b.py'' \<and>
   generate_safe_path (demo_data True) ''a b.py'' = generate_safe_path (demo_data True) ''a-b.py''"
  by (simp add: generate_safe_path_def spec_module_identifier_def safe_char_def demo_data_def
      suffix_def)

text \<open>
  Claim C8, amended. The translation is a function of the folder name and the path: it
  removes every occurrence of \<^verbatim>\<open>.py\<close>, puts an underscore for each space, hyphen and
  remaining dot and a dot for each slash, and prefixes \<^verbatim>\<open>plugins.<folder_name>.\<close>. For a
  path that ends in \<^verbatim>\<open>.py\<close> and has no other occurrence of it, and for a path without
  any, this is the specification's translation. On paths \<open>stem.py\<close> whose stem has no
  space, hyphen or dot the translation is injective.
\<close>

theorem generate_safe_path_translation:
  "generate_safe_path self path =
     ''plugins.'' @ folder_name self @ ''.'' @ map safe_char (replace ''.py'' '''' path) \<and>
   (\<not> sublist ''.py'' (stem @ ''.p'') \<longrightarrow>
      generate_safe_path self (stem @ ''.py'') =
        ''plugins.'' @ folder_name self @ ''.'' @ map safe_char stem \<and>
      generate_safe_path self (stem @ ''.py'') =
        spec_module_identifier (folder_name self) (stem @ ''.py'')) \<and>
   (\<not> sublist ''.py'' path \<longrightarrow>
      generate_safe_path self path = spec_module_identifier (folder_name self) path) \<and>
   (set s1 \<inter> {CHR '' '', CHR ''-'', CHR ''.''} = {} \<and>
    set s2 \<inter> {CHR '' '', CHR ''-'', CHR ''.''} = {} \<and>
    generate_safe_path self (s1 @ ''.py'') = generate_safe_path self (s2 @ ''.py'') \<longrightarrow>
      s1 = s2)"
proof (intro conjI impI)
  show "generate_safe_path self path =
      ''plugins.'' @ folder_name self @ ''.'' @ map safe_char (replace ''.py'' '''' path)"
    by (rule generate_safe_path_map)
next
  assume "\<not> sublist ''.py'' (stem @ ''.p'')"
  then have r: "replace ''.py'' '''' (stem @ ''.py'') = stem" by (rule replace_py_suffix)
  then show a: "generate_safe_path self (stem @ ''.py'') =
      ''plugins.'' @ folder_name self @ ''.'' @ map safe_char stem"
    by (simp only: generate_safe_path_map)
  show "generate_safe_path self (stem @ ''.py'') =
      spec_module_identifier (folder_name self) (stem @ ''.py'')"
    unfolding a by (simp add: spec_module_identifier_def suffix_def)
next
  assume n: "\<not> sublist ''.py'' path"
  then have "\<not> suffix ''.py'' path" by (auto simp: suffix_def sublist_def)
  moreover from n have "replace ''.py'' '''' path = path" by (intro replace_absent) simp_all
  ultimately show "generate_safe_path self path = spec_module_identifier (folder_name self) path"
    by (simp only: generate_safe_path_map spec_module_identifier_def if_False)
next
  let ?D = "{c. c \<noteq> CHR '' '' \<and> c \<noteq> CHR ''-'' \<and> c \<noteq> CHR ''.''}"
  assume a: "set s1 \<inter> {CHR '' '', CHR ''-'', CHR ''.''} = {} \<and>
    set s2 \<inter> {CHR '' '', CHR ''-'', CHR ''.''} = {} \<and>
    generate_safe_path self (s1 @ ''.py'') = generate_safe_path self (s2 @ ''.py'')"
  then have d: "CHR ''.'' \<notin> set s1" "CHR ''.'' \<notin> set s2" by auto
  from a have sub: "set s1 \<union> set s2 \<subseteq> ?D" by auto
  have "replace ''.py'' '''' (s1 @ ''.py'') = s1"
    by (rule replace_py_suffix [OF no_dot_no_py [OF d(1)]])
  moreover have "replace ''.py'' '''' (s2 @ ''.py'') = s2"
    by (rule replace_py_suffix [OF no_dot_no_py [OF d(2)]])
  ultimately have "map safe_char s1 = map safe_char s2"
    using a by (simp only: generate_safe_path_map same_append_eq)
  moreover have "inj_on safe_char (set s1 \<union> set s2)"
    using safe_char_inj sub by (rule inj_on_subset)
  ultimately show "s1 = s2" by (simp only: inj_on_map_eq_map)
qed

text \<open>
  The example of the specification: folder \<open>myplug\<close>, file \<open>sub dir/mod-a.py\<close>; and two
  paths without space, hyphen or dot in their stems, which get different identifiers.
\<close>

theorem generate_safe_path_translation_witness:
  "generate_safe_path ((demo_data True)\<lparr>folder_name := ''myplug''\<rparr>) ''sub dir/mod-a.py'' =
     ''plugins.myplug.sub_dir.mod_a'' \<and>
   generate_safe_path (demo_data True) ''README'' = ''plugins.demo.README'' \<and>
   generate_safe_path (demo_data True) ''cogs/a_b.py'' \<noteq>
     generate_safe_path (demo_data True) ''cogs_a/b.py''"
  using generate_safe_path_translation [of "(demo_data True)\<lparr>folder_name := ''myplug''\<rparr>"
      "''README''" "''sub dir/mod-a''" "''cogs/a_b''" "''cogs_a/b''"]
    generate_safe_path_translation [of "demo_data True"
      "''README''" "''sub dir/mod-a''" "''cogs/a_b''" "''cogs_a/b''"]
  by (simp add: sublist_Cons_right safe_char_def spec_module_identifier_def demo_data_def)

subsection \<open>Requirement lines\<close>

text \<open>
  \<open>splitlines\<close> keeps every character but the line boundaries, in order, and no line it
  returns holds a boundary. A text made of lines that each end in \<^verbatim>\<open>\n\<close> gives back
  exactly those lines, the empty ones too.
\<close>

lemma is_linebreak_LF: "is_linebreak (CHR 0x0A)"
  by (simp add: is_linebreak_def)

lemma is_linebreak_CR: "is_linebreak (CHR 0x0D)"
  by (simp add: is_linebreak_def)

lemma splitlines_from_CRLF:
  "splitlines_from cur (CHR 0x0D # CHR 0x0A # cs) = cur # splitlines_from [] cs"
  by simp

lemma splitlines_from_break:
  "is_linebreak c \<Longrightarrow> \<not> (c = CHR 0x0D \<and> d = CHR 0x0A) \<Longrightarrow>
   splitlines_from cur (c # d # cs) = cur # splitlines_from [] (d # cs)"
  by auto

lemma splitlines_from_char:
  "\<not> is_linebreak c \<Longrightarrow> splitlines_from cur (c # d # cs) = splitlines_from (cur @ [c]) (d # cs)"
  using is_linebreak_CR by auto

lemma concat_splitlines_from:
  "concat (splitlines_from cur s) = cur @ filter (\<lambda>c. \<not> is_linebreak c) s"
proof (induction cur s rule: splitlines_from.induct)
  case (1 cur)
  show ?case by simp
next
  case (2 cur c)
  then show ?case by (cases "is_linebreak c") simp_all
next
  case (3 cur c d cs)
  show ?case
  proof (cases "c = CHR 0x0D \<and> d = CHR 0x0A")
    case True
    with 3(1) show ?thesis
      by (simp only: splitlines_from_CRLF concat.simps filter.simps is_linebreak_LF
          is_linebreak_CR not_True_eq_False if_False append_Nil)
  next
    case False
    show ?thesis
    proof (cases "is_linebreak c")
      case True
      from 3(2) [OF False True] show ?thesis
        by (simp only: splitlines_from_break [OF True False] concat.simps filter.simps True
            not_True_eq_False if_False append_Nil)
    next
      case nb: False
      from 3(3) [OF False nb] show ?thesis
        by (simp only: splitlines_from_char [OF nb] filter.simps nb not_False_eq_True if_True
            append_assoc append_Cons append_Nil)
    qed
  qed
qed
lemma splitlines_from_no_linebreak:
  "(\<forall>c\<in>set cur. \<not> is_linebreak c) \<Longrightarrow>
   (\<forall>l\<in>set (splitlines_from cur s). \<forall>c\<in>set l. \<not> is_linebreak c)"
proof (induction cur s rule: splitlines_from.induct)
  case (1 cur)
  then show ?case by simp
next
  case (2 cur c)
  then show ?case by (cases "is_linebreak c") simp_all
next
  case (3 cur c d cs)
  show ?case
  proof (cases "c = CHR 0x0D \<and> d = CHR 0x0A")
    case True
    with 3(1) [OF True] 3(4) show ?thesis
      by (simp only: splitlines_from_CRLF) simp
  next
    case False
    show ?thesis
    proof (cases "is_linebreak c")
      case True
      from 3(2) [OF False True] 3(4) show ?thesis
        by (simp only: splitlines_from_break [OF True False]) simp
    next
      case nb: False
      from 3(4) nb have "\<forall>x\<in>set (cur @ [c]). \<not> is_linebreak x" by simp
      from 3(3) [OF False nb this] show ?thesis
        by (simp only: splitlines_from_char [OF nb])
    qed
  qed
qed

lemma splitlines_from_line:
  "(\<forall>c\<in>set l. \<not> is_linebreak c) \<Longrightarrow>
   splitlines_from cur (l @ CHR 0x0A # rest) = (cur @ l) # splitlines_from [] rest"
proof (induction l arbitrary: cur)
  case Nil
  show ?case
  proof (cases rest)
    case Nil
    then show ?thesis by (simp add: is_linebreak_LF)
  next
    case (Cons d ds)
    have "\<not> (CHR 0x0A = CHR 0x0D \<and> d = CHR 0x0A)" by simp
    from splitlines_from_break [OF is_linebreak_LF this, of cur ds] Cons
    show ?thesis by (simp only: append_Nil append_Nil2)
  qed
next
  case (Cons c l)
  from Cons.prems have c: "\<not> is_linebreak c" and l: "\<forall>c\<in>set l. \<not> is_linebreak c" by simp_all
  obtain d ds where d: "l @ CHR 0x0A # rest = d # ds" by (cases "l @ CHR 0x0A # rest") simp_all
  from splitlines_from_char [OF c, of cur d ds] Cons.IH [OF l, of "cur @ [c]"] d
  show ?case by (simp only: append_Cons append_assoc append_Nil)
qed

lemma splitlines_terminated_lines:
  "(\<forall>l\<in>set ls. \<forall>c\<in>set l. \<not> is_linebreak c) \<Longrightarrow>
   splitlines (concat (map (\<lambda>l. l @ [CHR 0x0A]) ls)) = ls"
proof (induction ls)
  case Nil
  show ?case by (simp add: splitlines_def)
next
  case (Cons l ls)
  from Cons.prems have l: "\<forall>c\<in>set l. \<not> is_linebreak c"
    and ls: "\<forall>l\<in>set ls. \<forall>c\<in>set l. \<not> is_linebreak c" by simp_all
  from splitlines_from_line [OF l, of "[]" "concat (map (\<lambda>l. l @ [CHR 0x0A]) ls)"] Cons.IH [OF ls]
  show ?case by (simp add: splitlines_def del: splitlines_from.simps)
qed

lemma splitlines_from_char_Cons:
  "\<not> is_linebreak c \<Longrightarrow> splitlines_from cur (c # s) = splitlines_from (cur @ [c]) s"
  by (cases s) (simp_all add: splitlines_from_char del: splitlines_from.simps(3))

lemma splitlines_from_chars:
  "list_all (\<lambda>c. \<not> is_linebreak c) l \<Longrightarrow>
   splitlines_from cur (l @ s) = splitlines_from (cur @ l) s"
proof (induction l arbitrary: cur)
  case Nil
  show ?case by simp
next
  case (Cons c l)
  from Cons.prems have c: "\<not> is_linebreak c" and l: "list_all (\<lambda>c. \<not> is_linebreak c) l"
    by simp_all
  from splitlines_from_char_Cons [OF c, of cur "l @ s"] Cons.IH [OF l, of "cur @ [c]"]
  show ?case by (simp only: append_Cons append_assoc append_Nil)
qed

lemma splitlines_from_break_Cons:
  assumes "is_linebreak c" and "\<not> (c = CHR 0x0D \<and> take 1 s = [CHR 0x0A])"
  shows "splitlines_from cur (c # s) = cur # splitlines_from [] s"
proof (cases s)
  case Nil
  with assms(1) show ?thesis by simp
next
  case (Cons d ds)
  with assms(2) have "\<not> (c = CHR 0x0D \<and> d = CHR 0x0A)" by simp
  from splitlines_from_break [OF assms(1) this, of cur ds] Cons show ?thesis by (simp only:)
qed

lemma splitlines_from_boundary:
  assumes "is_boundary b" and "\<not> (b = [CHR 0x0D] \<and> take 1 s = [CHR 0x0A])"
  shows "splitlines_from cur (b @ s) = cur # splitlines_from [] s"
proof -
  from assms(1) consider c where "b = [c]" and "is_linebreak c"
    | "b = [CHR 0x0D, CHR 0x0A]"
    by (cases b rule: is_boundary.cases) auto
  then show ?thesis
  proof cases
    case 1
    with assms(2) have "\<not> (c = CHR 0x0D \<and> take 1 s = [CHR 0x0A])" by simp
    from splitlines_from_break_Cons [OF 1(2) this, of cur] 1(1) show ?thesis
      by (simp only: append_Cons append_Nil)
  next
    case 2
    with splitlines_from_CRLF [of cur s] show ?thesis by (simp only: append_Cons append_Nil)
  qed
qed

lemma join_lines_Cons: "join_lines ((l, b) # segs) = l @ b @ join_lines segs"
  by (simp add: join_lines_def)

lemma join_lines_Nil: "join_lines [] = []"
  by (simp add: join_lines_def)

text \<open>The lines of a well split text are the lines of its segments.\<close>

lemma splitlines_join_lines:
  "well_split segs \<Longrightarrow> splitlines (join_lines segs) = map fst segs"
proof (induction segs)
  case Nil
  show ?case by (simp add: splitlines_def join_lines_Nil)
next
  case (Cons p segs)
  obtain l b where p: "p = (l, b)" by (cases p)
  from Cons.prems p have nb: "list_all (\<lambda>c. \<not> is_linebreak c) l"
    and ws: "well_split segs" by simp_all
  have l: "splitlines_from [] (l @ b @ join_lines segs) = splitlines_from l (b @ join_lines segs)"
    using splitlines_from_chars [OF nb, of "[]" "b @ join_lines segs"] by simp
  show ?case
  proof (cases "segs = []")
    case True
    with Cons.prems p have "is_boundary b \<or> (b = [] \<and> l \<noteq> [])" by simp
    then show ?thesis
    proof
      assume "is_boundary b"
      from splitlines_from_boundary [OF this, of "[]" l] l True p show ?thesis
        by (simp add: splitlines_def join_lines_Cons join_lines_Nil
            del: splitlines_from.simps(2,3))
    next
      assume "b = [] \<and> l \<noteq> []"
      with l True p show ?thesis
        by (simp add: splitlines_def join_lines_Cons join_lines_Nil)
    qed
  next
    case False
    with Cons.prems p have b: "is_boundary b"
      and n: "\<not> (b = [CHR 0x0D] \<and> take 1 (join_lines segs) = [CHR 0x0A])" by simp_all
    from splitlines_from_boundary [OF b n, of l] l Cons.IH [OF ws] p show ?thesis
      by (simp add: splitlines_def join_lines_Cons del: splitlines_from.simps)
  qed
qed

text \<open>Every text is well split in some way, with the lines that \<open>splitlines\<close> returns.\<close>

lemma well_split_exists_from:
  "list_all (\<lambda>c. \<not> is_linebreak c) cur \<Longrightarrow>
   \<exists>segs. well_split segs \<and> join_lines segs = cur @ s \<and> map fst segs = splitlines_from cur s"
proof (induction cur s rule: splitlines_from.induct)
  case (1 cur)
  show ?case
  proof (cases "cur = []")
    case True
    then show ?thesis by (intro exI [of _ "[]"]) (simp add: join_lines_Nil)
  next
    case False
    with 1 show ?thesis
      by (intro exI [of _ "[(cur, [])]"]) (simp add: join_lines_Cons join_lines_Nil)
  qed
next
  case (2 cur c)
  show ?case
  proof (cases "is_linebreak c")
    case True
    with 2(2) show ?thesis
      by (intro exI [of _ "[(cur, [c])]"]) (simp add: join_lines_Cons join_lines_Nil)
  next
    case False
    with 2(2) have "list_all (\<lambda>c. \<not> is_linebreak c) (cur @ [c])" by simp
    from 2(1) [OF False this] False show ?thesis by simp
  qed
next
  case (3 cur c d cs)
  show ?case
  proof (cases "c = CHR 0x0D \<and> d = CHR 0x0A")
    case True
    from 3(1) [OF True] obtain segs where s: "well_split segs" "join_lines segs = cs"
      "map fst segs = splitlines_from [] cs" by auto
    from s 3(4) True show ?thesis
      by (intro exI [of _ "(cur, [CHR 0x0D, CHR 0x0A]) # segs"])
        (simp add: join_lines_Cons splitlines_from_CRLF del: splitlines_from.simps)
  next
    case False
    show ?thesis
    proof (cases "is_linebreak c")
      case True
      from 3(2) [OF False True] obtain segs where s: "well_split segs"
        "join_lines segs = d # cs" "map fst segs = splitlines_from [] (d # cs)" by auto
      from s(2) have ne: "segs \<noteq> []" by (auto simp: join_lines_Nil)
      from False s(2) have "\<not> ([c] = [CHR 0x0D] \<and> take 1 (join_lines segs) = [CHR 0x0A])"
        by simp
      with s ne 3(4) True show ?thesis
        by (intro exI [of _ "(cur, [c]) # segs"])
          (simp add: join_lines_Cons splitlines_from_break [OF True False]
            del: splitlines_from.simps)
    next
      case nb: False
      with 3(4) have "list_all (\<lambda>c. \<not> is_linebreak c) (cur @ [c])" by simp
      from 3(3) [OF False nb this] show ?thesis
        by (simp add: splitlines_from_char [OF nb] del: splitlines_from.simps)
    qed
  qed
qed

lemma well_split_exists:
  "\<exists>segs. well_split segs \<and> join_lines segs = s \<and> map fst segs = splitlines s"
  using well_split_exists_from [of "[]" s] by (simp add: splitlines_def)

text \<open>
  Claim C9 as stated fails: a requirements file with a blank line between two
  requirements gives three lines, the empty one among them.
\<close>

theorem get_requirements_blank_line_counterexample:
  "get_requirements example_sys (demo_data True)
     (demo_requirements (''requests'' @ [CHR 0x0A, CHR 0x0A] @ ''numpy'' @ [CHR 0x0A])) =
     Inr [''requests'', [], ''numpy''] \<and>
   get_requirements example_sys (demo_data True)
     (demo_requirements (''requests'' @ [CHR 0x0A, CHR 0x0A] @ ''numpy'' @ [CHR 0x0A])) \<noteq>
     Inr [''requests'', ''numpy'']"
  by (simp add: get_requirements_def splitlines_def is_linebreak_def demo_requirements_def
      demo_data_def example_sys_def)

text \<open>
  Claim C9, amended. Without a requirements file under the plugin folder the result is
  the empty list. With one that can be read, the result is the list of all lines of its
  text in order, empty lines included: the text is well split into segments of a line
  and its boundary, in one way only as far as the lines go, and the result is the list
  of these lines, which is what \<open>splitlines\<close> returns. In particular a text of lines that
  each end in \<^verbatim>\<open>\n\<close> gives exactly these lines, the lines hold no line boundary and,
  put together, are the text without its boundaries. An error of the read leaves the
  method as an exception. The result depends on the world at the call alone: nothing is
  cached.
\<close>

theorem get_requirements_lines:
  "(\<not> path_exists sys (''plugins/'' @ folder_name self @ ''/requirements.txt'') w \<longrightarrow>
      get_requirements sys self w = Inr []) \<and>
   (path_exists sys (''plugins/'' @ folder_name self @ ''/requirements.txt'') w \<and>
    read_file sys (''plugins/'' @ folder_name self @ ''/requirements.txt'') w =
      Inr (concat (map (\<lambda>l. l @ [CHR 0x0A]) ls)) \<and>
    (\<forall>l\<in>set ls. \<forall>c\<in>set l. \<not> is_linebreak c) \<longrightarrow>
      get_requirements sys self w = Inr ls) \<and>
   (path_exists sys (''plugins/'' @ folder_name self @ ''/requirements.txt'') w \<and>
    read_file sys (''plugins/'' @ folder_name self @ ''/requirements.txt'') w = Inr content \<longrightarrow>
      (\<exists>lines. get_requirements sys self w = Inr lines \<and>
         concat lines = filter (\<lambda>c. \<not> is_linebreak c) content \<and>
         (\<forall>l\<in>set lines. \<forall>c\<in>set l. \<not> is_linebreak c))) \<and>
   (path_exists sys (''plugins/'' @ folder_name self @ ''/requirements.txt'') w \<and>
    read_file sys (''plugins/'' @ folder_name self @ ''/requirements.txt'') w = Inl e \<longrightarrow>
      get_requirements sys self w = Inl e) \<and>
   (path_exists sys (''plugins/'' @ folder_name self @ ''/requirements.txt'') w \<and>
    read_file sys (''plugins/'' @ folder_name self @ ''/requirements.txt'') w = Inr content \<longrightarrow>
      get_requirements sys self w = Inr (splitlines content) \<and>
      (\<exists>segs. well_split segs \<and> join_lines segs = content \<and>
         get_requirements sys self w = Inr (map fst segs))) \<and>
   (well_split segs1 \<and> well_split segs2 \<and> join_lines segs1 = join_lines segs2 \<longrightarrow>
      map fst segs1 = map fst segs2)"
proof (intro conjI impI)
  assume "\<not> path_exists sys (''plugins/'' @ folder_name self @ ''/requirements.txt'') w"
  then show "get_requirements sys self w = Inr []" by (simp add: get_requirements_def)
next
  assume a: "path_exists sys (''plugins/'' @ folder_name self @ ''/requirements.txt'') w \<and>
    read_file sys (''plugins/'' @ folder_name self @ ''/requirements.txt'') w =
      Inr (concat (map (\<lambda>l. l @ [CHR 0x0A]) ls)) \<and>
    (\<forall>l\<in>set ls. \<forall>c\<in>set l. \<not> is_linebreak c)"
  then have "splitlines (concat (map (\<lambda>l. l @ [CHR 0x0A]) ls)) = ls"
    by (intro splitlines_terminated_lines) blast
  with a show "get_requirements sys self w = Inr ls" by (simp add: get_requirements_def)
next
  assume a: "path_exists sys (''plugins/'' @ folder_name self @ ''/requirements.txt'') w \<and>
    read_file sys (''plugins/'' @ folder_name self @ ''/requirements.txt'') w = Inr content"
  then have "get_requirements sys self w = Inr (splitlines content)"
    by (simp add: get_requirements_def)
  moreover have "concat (splitlines content) = filter (\<lambda>c. \<not> is_linebreak c) content"
    by (simp add: splitlines_def concat_splitlines_from)
  moreover have "\<forall>l\<in>set (splitlines content). \<forall>c\<in>set l. \<not> is_linebreak c"
    unfolding splitlines_def by (rule splitlines_from_no_linebreak) simp
  ultimately show "\<exists>lines. get_requirements sys self w = Inr lines \<and>
      concat lines = filter (\<lambda>c. \<not> is_linebreak c) content \<and>
      (\<forall>l\<in>set lines. \<forall>c\<in>set l. \<not> is_linebreak c)" by blast
next
  assume "path_exists sys (''plugins/'' @ folder_name self @ ''/requirements.txt'') w \<and>
    read_file sys (''plugins/'' @ folder_name self @ ''/requirements.txt'') w = Inl e"
  then show "get_requirements sys self w = Inl e" by (simp add: get_requirements_def)
next
  assume a: "path_exists sys (''plugins/'' @ folder_name self @ ''/requirements.txt'') w \<and>
    read_file sys (''plugins/'' @ folder_name self @ ''/requirements.txt'') w = Inr content"
  then show g: "get_requirements sys self w = Inr (splitlines content)"
    by (simp add: get_requirements_def)
  from well_split_exists [of content] obtain segs where "well_split segs"
    "join_lines segs = content" "map fst segs = splitlines content" by blast
  with g show "\<exists>segs. well_split segs \<and> join_lines segs = content \<and>
      get_requirements sys self w = Inr (map fst segs)" by auto
next
  assume "well_split segs1 \<and> well_split segs2 \<and> join_lines segs1 = join_lines segs2"
  with splitlines_join_lines [of segs1] splitlines_join_lines [of segs2]
  show "map fst segs1 = map fst segs2" by simp
qed

text \<open>
  A file of two lines gives the two lines in order, with or without the boundary after
  the last line; a folder without the file gives the empty list.
\<close>

theorem get_requirements_lines_witness:
  "get_requirements example_sys (demo_data True)
     (demo_requirements (''requests'' @ [CHR 0x0A] @ ''numpy'' @ [CHR 0x0A])) =
     Inr [''requests'', ''numpy''] \<and>
   get_requirements example_sys (demo_data True) (demo_world [] [] [] []) = Inr [] \<and>
   get_requirements example_sys (demo_data True)
     (demo_requirements (''requests'' @ [CHR 0x0A] @ ''numpy'')) =
     Inr [''requests'', ''numpy'']"
  using get_requirements_lines [where sys = example_sys and self = "demo_data True"
        and w = "demo_world [] [] [] []" and ls = "[]" and content = "[]" and e = OSError
        and ?segs1.0 = "[]" and ?segs2.0 = "[]"]
    get_requirements_lines [where sys = example_sys and self = "demo_data True"
        and w = "demo_requirements (''requests'' @ [CHR 0x0A] @ ''numpy'' @ [CHR 0x0A])"
        and ls = "[''requests'', ''numpy'']" and content = "[]" and e = OSError
        and ?segs1.0 = "[]" and ?segs2.0 = "[]"]
    get_requirements_lines [where sys = example_sys and self = "demo_data True"
        and w = "demo_requirements (''requests'' @ [CHR 0x0A] @ ''numpy'')"
        and ls = "[]" and content = "''requests'' @ [CHR 0x0A] @ ''numpy''" and e = OSError
        and ?segs1.0 = "[(''requests'', [CHR 0x0A]), (''numpy'', [])]"
        and ?segs2.0 = "[(''requests'', [CHR 0x0A]), (''numpy'', [])]"]
  by (simp add: splitlines_def is_linebreak_def demo_requirements_def demo_world_def
      demo_data_def example_sys_def)

end
